theory Spec2Isabelle
  imports Complex_Main
begin

section \<open>Data model\<close>

text \<open>
  The simulation core of the game component (the \<open>App\<close> component, its effect closure and
  its \<open>animate\<close> loop). JavaScript numbers that only ever hold integers (health, score, wave,
  charges, millisecond time stamps) are \<open>int\<close>; coordinates, angles and time deltas are
  \<open>real\<close>, the rounding of IEEE doubles is not modelled. Calls to the collaborators
  (sound synthesis, scene graph, score store) are recorded in an event log in call order.
\<close>

datatype Vector3 = Vector3 (vx: real) (vy: real) (vz: real)

text \<open>The methods of three.js vectors that the loop uses.\<close>

definition add_v3 :: "Vector3 \<Rightarrow> Vector3 \<Rightarrow> Vector3" where
  "add_v3 a b = Vector3 (vx a + vx b) (vy a + vy b) (vz a + vz b)"

definition sub_v3 :: "Vector3 \<Rightarrow> Vector3 \<Rightarrow> Vector3" where
  "sub_v3 a b = Vector3 (vx a - vx b) (vy a - vy b) (vz a - vz b)"

definition multiplyScalar :: "Vector3 \<Rightarrow> real \<Rightarrow> Vector3" where
  "multiplyScalar a s = Vector3 (vx a * s) (vy a * s) (vz a * s)"

definition length_v3 :: "Vector3 \<Rightarrow> real" where
  "length_v3 a = sqrt (vx a * vx a + vy a * vy a + vz a * vz a)"

text \<open>\<open>normalize()\<close> is \<open>divideScalar(length() || 1)\<close>: the zero vector stays zero.\<close>

definition normalize_v3 :: "Vector3 \<Rightarrow> Vector3" where
  "normalize_v3 a =
     multiplyScalar a (1 / (if length_v3 a = 0 then 1 else length_v3 a))"

definition lerp_v3 :: "Vector3 \<Rightarrow> Vector3 \<Rightarrow> real \<Rightarrow> Vector3" where
  "lerp_v3 a b alpha =
     Vector3 (vx a + (vx b - vx a) * alpha) (vy a + (vy b - vy a) * alpha)
       (vz a + (vz b - vz a) * alpha)"

definition distanceTo :: "Vector3 \<Rightarrow> Vector3 \<Rightarrow> real" where
  "distanceTo a b = length_v3 (sub_v3 a b)"

text \<open>\<open>THREE.MathUtils.lerp(x, y, t)\<close> is \<open>(1 - t) * x + t * y\<close>.\<close>

definition lerp :: "real \<Rightarrow> real \<Rightarrow> real \<Rightarrow> real" where
  "lerp x y t = (1 - t) * x + t * y"

datatype Status = Menu | Playing | Gameover

text \<open>
  A mesh is an object with an identity (\<open>oid\<close>, what \<open>===\<close> compares) and a position.
\<close>

record Mesh =
  oid :: nat
  position :: Vector3

record Enemy =
  eid :: real
  mesh :: Mesh
  hitbox :: Mesh
  hp :: int
  maxHp :: int
  wobbleOffset :: real
  speedOffset :: real
  velocity :: Vector3

record GameState =
  status :: Status
  health :: int
  score :: int
  wave :: int
  enemies :: "Enemy list"
  beamCharges :: int

datatype SoundType = Shoot | Hit | Beam | Alarm | Low_hp

datatype Event =
    PlaySound SoundType
  | SpawnExplosion Vector3
  | SpawnDamageText Vector3 int bool
  | SpawnShockwave
  | GenerateLightning
  | ActiveLine int
  | SetIsFiring
  | SetHitMarker
  | ExitPointerLock
  | AddDoc string int string

text \<open>
  The mutable state the handlers share: the React state \<open>gameState\<close>, the snapshot of it
  that the running effect closure captured (\<open>closureState\<close>: what \<open>animate\<close> reads as
  \<open>gameState\<close>), the refs, the camera of the current effect run, and the event log.
  A state updater passed to \<open>setGameState\<close> is applied to \<open>gameState\<close> where it is
  passed: React runs the updaters in call order on the latest state, and no handler reads the
  React state except through \<open>closureState\<close>. \<open>nextOid\<close> is the next unused object
  identity. \<open>audioCtxRef\<close> and \<open>dbRef\<close> say whether the audio context and the score store
  exist; a user id or application id that is missing or empty is \<open>None\<close>.
\<close>

record World =
  gameState :: GameState
  closureState :: GameState
  enemiesRef :: "Enemy list"
  lastShotTimeRef :: int
  waveStartTimeRef :: int
  lastGestureTimeRef :: int
  beamRegenTimerRef :: real
  cursorPositionRef :: "real \<times> real"
  targetCursorPositionRef :: "real \<times> real"
  shakeIntensityRef :: real
  cameraPosition :: Vector3
  cameraRotation :: "real \<times> real"
  lastTime :: real
  nextOid :: nat
  audioCtxRef :: bool
  dbRef :: bool
  userIdRef :: "string option"
  app_id :: "string option"
  nickname :: string
  events :: "Event list"

section \<open>Constants\<close>

definition PLAYER_HEIGHT :: real where "PLAYER_HEIGHT = 1.5"
definition FLIGHT_SPEED :: real where "FLIGHT_SPEED = 15.0"
definition REPULSOR_COOLDOWN_MS :: int where "REPULSOR_COOLDOWN_MS = 200"
definition WAVE_DURATION_SEC :: real where "WAVE_DURATION_SEC = 45"
definition MAX_BEAM_CHARGES :: int where "MAX_BEAM_CHARGES = 5"
definition BEAM_REGEN_MS :: real where "BEAM_REGEN_MS = 1000"

section \<open>Helpers of the combat functions\<close>

definition emit :: "Event \<Rightarrow> World \<Rightarrow> World" where
  "emit e w = w\<lparr>events := events w @ [e]\<rparr>"

text \<open>\<open>playSound\<close> returns at once while no audio context exists.\<close>

definition playSound :: "SoundType \<Rightarrow> World \<Rightarrow> World" where
  "playSound type w = (if \<not> audioCtxRef w then w else emit (PlaySound type) w)"

definition addShake :: "real \<Rightarrow> World \<Rightarrow> World" where
  "addShake intensity w =
     w\<lparr>shakeIntensityRef := min (shakeIntensityRef w + intensity) 2.0\<rparr>"

definition spawnDamageText :: "Vector3 \<Rightarrow> int \<Rightarrow> bool \<Rightarrow> World \<Rightarrow> World" where
  "spawnDamageText pos amount isCrit w = emit (SpawnDamageText pos amount isCrit) w"

definition spawnExplosion :: "Vector3 \<Rightarrow> World \<Rightarrow> World" where
  "spawnExplosion pos w = emit (SpawnExplosion pos) w"

definition spawnShockwave :: "World \<Rightarrow> World" where
  "spawnShockwave w = emit SpawnShockwave w"

definition generateLightning :: "World \<Rightarrow> World" where
  "generateLightning w = emit GenerateLightning w"

text \<open>
  Reading \<open>arr[i]\<close> gives \<open>undefined\<close> out of range, and the property access that follows
  raises a TypeError: \<open>None\<close>. \<open>arr.splice(i, 1)\<close> removes the element at \<open>i\<close> and does
  nothing out of range.
\<close>

definition arrayAt :: "'a list \<Rightarrow> nat \<Rightarrow> 'a option" where
  "arrayAt arr i = (if i < length arr then Some (arr ! i) else None)"

definition splice1 :: "nat \<Rightarrow> 'a list \<Rightarrow> 'a list" where
  "splice1 i arr = take i arr @ drop (Suc i) arr"

section \<open>The unibeam\<close>

text \<open>
  The \<open>forEach\<close> of \<open>triggerUnibeam\<close>: every enemy nearer than 80 to the camera gets an
  explosion and a damage text, and its index is pushed on \<open>enemiesToRemove\<close>.
\<close>

primrec forEachEnemy :: "nat \<Rightarrow> Enemy list \<Rightarrow> nat list \<times> World \<Rightarrow> nat list \<times> World" where
  "forEachEnemy idx [] acc = acc"
| "forEachEnemy idx (enemy # rest) acc =
     forEachEnemy (Suc idx) rest
       (let enemiesToRemove = fst acc; w = snd acc;
            dist = distanceTo (position (mesh enemy)) (cameraPosition w)
        in if dist < 80
           then (enemiesToRemove @ [idx],
                 spawnDamageText (position (mesh enemy)) 9999 True
                   (spawnExplosion (position (mesh enemy)) w))
           else acc)"

text \<open>
  The removal loop over the indices sorted in descending order: each step reads
  \<open>enemiesRef.current[idx]\<close> (to detach its meshes) and splices it out.
\<close>

primrec removeEnemies :: "nat list \<Rightarrow> Enemy list \<Rightarrow> Enemy list option" where
  "removeEnemies [] arr = Some arr"
| "removeEnemies (idx # rest) arr =
     (case arrayAt arr idx of
        None \<Rightarrow> None
      | Some enemy \<Rightarrow> removeEnemies rest (splice1 idx arr))"

text \<open>\<open>sort((a, b) => b - a)\<close>: descending order.\<close>

definition sortDescending :: "nat list \<Rightarrow> nat list" where
  "sortDescending xs = rev (sort xs)"

text \<open>
  \<open>triggerUnibeam\<close>: the whole body is the state updater. With no charge it returns
  \<open>prev\<close> itself, before any side effect. \<open>dateNow\<close> is the reading of \<open>Date.now()\<close>.
\<close>

definition triggerUnibeam :: "int \<Rightarrow> World \<Rightarrow> World option" where
  "triggerUnibeam dateNow w =
     (let prev = gameState w in
      if beamCharges prev \<le> 0 then Some w
      else
        let w1 = addShake 2.0 (playSound Beam w);
            w2 = (generateLightning ^^ 8) w1;
            w3 = emit (ActiveLine (dateNow + 500)) (spawnShockwave w2);
            scanned = forEachEnemy 0 (enemiesRef w3) ([], w3);
            enemiesToRemove = fst scanned;
            w4 = snd scanned
        in case removeEnemies (sortDescending enemiesToRemove) (enemiesRef w4) of
             None \<Rightarrow> None
           | Some remaining \<Rightarrow>
               Some (w4\<lparr>enemiesRef := remaining,
                        gameState := prev\<lparr>beamCharges := beamCharges prev - 1,
                          score := score prev + int (length enemiesToRemove) * 50\<rparr>\<rparr>))"

section \<open>The repulsor\<close>

text \<open>
  What \<open>raycaster.intersectObjects(enemyHitboxes)\<close> returns is an input of the handler: the
  intersections in the order three.js gives them (nearest first), each with the point hit
  and the identity of the hit box.
\<close>

record Intersection =
  distance :: real
  point :: Vector3
  object :: nat

text \<open>\<open>findIndex\<close> returns -1 when no element satisfies the predicate: \<open>None\<close>.\<close>

primrec findIndex :: "('a \<Rightarrow> bool) \<Rightarrow> 'a list \<Rightarrow> nat option" where
  "findIndex p [] = None"
| "findIndex p (x # xs) = (if p x then Some 0 else map_option Suc (findIndex p xs))"

definition destroyEnemy :: "nat \<Rightarrow> int \<Rightarrow> World \<Rightarrow> World option" where
  "destroyEnemy index points w =
     (case arrayAt (enemiesRef w) index of
        None \<Rightarrow> None
      | Some enemy \<Rightarrow>
          let w1 = spawnExplosion (position (mesh enemy)) w;
              w2 = w1\<lparr>enemiesRef := splice1 index (enemiesRef w1)\<rparr>;
              prev = gameState w2
          in Some (w2\<lparr>gameState := prev\<lparr>score := score prev + points\<rparr>\<rparr>))"

text \<open>
  \<open>fireRepulsor\<close>, with \<open>now\<close> the reading of \<open>Date.now()\<close>. The two beam meshes are the
  two \<open>ActiveLine\<close> events; the muzzle light and the emissive flash of a surviving enemy
  are not modelled.
\<close>

definition fireRepulsor :: "int \<Rightarrow> Intersection list \<Rightarrow> World \<Rightarrow> World option" where
  "fireRepulsor now intersects w =
     (if now - lastShotTimeRef w < REPULSOR_COOLDOWN_MS then Some w
      else
        let w1 = emit SetIsFiring (addShake 0.08 (playSound Shoot (w\<lparr>lastShotTimeRef := now\<rparr>)));
            hitIndex =
              (case intersects of
                 [] \<Rightarrow> None
               | first # _ \<Rightarrow> findIndex (\<lambda>e. oid (hitbox e) = object first) (enemiesRef w1));
            w2 = emit (ActiveLine now) (emit (ActiveLine now) w1)
        in case hitIndex of
             None \<Rightarrow> Some w2
           | Some hitIndex \<Rightarrow>
               (case arrayAt (enemiesRef w2) hitIndex of
                  None \<Rightarrow> None
                | Some enemy0 \<Rightarrow>
                    let dmg = 100;
                        enemy = enemy0\<lparr>hp := hp enemy0 - dmg\<rparr>;
                        w3 = (emit SetHitMarker w2)\<lparr>enemiesRef := (enemiesRef w2)[hitIndex := enemy]\<rparr>;
                        w4 = playSound Hit (spawnDamageText (position (mesh enemy)) dmg False w3)
                    in if hp enemy \<le> 0 then destroyEnemy hitIndex 10 w4 else Some w4))"

section \<open>The animation loop\<close>

text \<open>
  What one frame reads from its environment: the clocks, the random draws in the order of
  their use, the gesture recogniser's answer (\<open>None\<close> while the video or the recogniser is
  not ready), and, for a shot fired by a gesture, the clock reading and the ray cast of
  that shot.
\<close>

record Recognition =
  landmark :: "(real \<times> real) option"
  gestureName :: "string option"

record Frame =
  perf_now :: real
  date_now :: int
  rnd_shakeX :: real
  rnd_shakeY :: real
  recognition :: "Recognition option"
  shot_now :: int
  shot_intersects :: "Intersection list"
  rnd_spawn :: real
  rnd_spawnX :: real
  rnd_spawnY :: real
  rnd_id :: real
  rnd_wobble :: real
  rnd_speed :: real

text \<open>Forward flight, parallax aiming and the regeneration of unibeam charges.\<close>

definition flightAndRegen :: "real \<Rightarrow> World \<Rightarrow> World" where
  "flightAndRegen delta w =
     (let cam = cameraPosition w;
          targetRotY = (0.5 - fst (cursorPositionRef w)) * 0.6;
          targetRotX = (0.5 - snd (cursorPositionRef w)) * 0.4;
          w1 = w\<lparr>cameraPosition := Vector3 (vx cam) (vy cam) (vz cam - FLIGHT_SPEED * delta),
                 cameraRotation := (lerp (fst (cameraRotation w)) targetRotX (delta * 5),
                                    lerp (snd (cameraRotation w)) targetRotY (delta * 5))\<rparr>
      in if beamCharges (closureState w1) < MAX_BEAM_CHARGES
         then
           let w2 = w1\<lparr>beamRegenTimerRef := beamRegenTimerRef w1 + delta * 1000\<rparr>
           in if beamRegenTimerRef w2 \<ge> BEAM_REGEN_MS
              then
                let prev = gameState w2
                in w2\<lparr>gameState := prev\<lparr>beamCharges := min (beamCharges prev + 1) MAX_BEAM_CHARGES\<rparr>,
                      beamRegenTimerRef := 0\<rparr>
              else w2
         else w1\<lparr>beamRegenTimerRef := 0\<rparr>)"

definition cameraShake :: "real \<Rightarrow> Frame \<Rightarrow> World \<Rightarrow> World" where
  "cameraShake delta f w =
     (let cam = cameraPosition w in
      if shakeIntensityRef w > 0
      then
        let shakeX = (rnd_shakeX f - 0.5) * shakeIntensityRef w;
            shakeY = (rnd_shakeY f - 0.5) * shakeIntensityRef w
        in w\<lparr>cameraPosition := Vector3 (vx cam + shakeX) (PLAYER_HEIGHT + shakeY) (vz cam),
              shakeIntensityRef := max 0 (shakeIntensityRef w - delta * 5)\<rparr>
      else w\<lparr>cameraPosition := Vector3 0 PLAYER_HEIGHT (vz cam)\<rparr>)"

text \<open>
  The polling of the gesture recogniser, at most every 40 ms: a detected hand moves the raw
  cursor target and, while playing, a closed fist fires the repulsor and an open palm the
  unibeam.
\<close>

definition pollGesture :: "Frame \<Rightarrow> World \<Rightarrow> World option" where
  "pollGesture f w =
     (case recognition f of
        None \<Rightarrow> Some w
      | Some results \<Rightarrow>
          if date_now f - lastGestureTimeRef w > 40
          then
            let w1 = w\<lparr>lastGestureTimeRef := date_now f\<rparr>
            in case landmark results of
                 None \<Rightarrow> Some w1
               | Some pointer \<Rightarrow>
                   let gesture = (case gestureName results of None \<Rightarrow> ''None'' | Some g \<Rightarrow> g);
                       w2 = w1\<lparr>targetCursorPositionRef := (1.0 - fst pointer, snd pointer)\<rparr>
                   in if status (closureState w2) = Playing
                      then if gesture = ''Closed_Fist''
                           then fireRepulsor (shot_now f) (shot_intersects f) w2
                           else if gesture = ''Open_Palm''
                           then triggerUnibeam (shot_now f) w2
                           else Some w2
                      else Some w2
          else Some w)"

definition waveTimer :: "int \<Rightarrow> World \<Rightarrow> World" where
  "waveTimer now w =
     (let elapsedWave = real_of_int (now - waveStartTimeRef w) / 1000;
          remaining = max 0 (WAVE_DURATION_SEC - elapsedWave)
      in if remaining \<le> 0
         then
           let prev = gameState w
           in w\<lparr>gameState := prev\<lparr>wave := wave prev + 1\<rparr>, waveStartTimeRef := now\<rparr>
         else w)"

text \<open>A new enemy owns two fresh meshes (the visible one and the hit box) at one position.\<close>

definition newEnemy :: "nat \<Rightarrow> Vector3 \<Rightarrow> real \<Rightarrow> real \<Rightarrow> real \<Rightarrow> Enemy" where
  "newEnemy fresh pos rndId rndWobble rndSpeed =
     \<lparr>eid = rndId, mesh = \<lparr>oid = fresh, position = pos\<rparr>,
      hitbox = \<lparr>oid = Suc fresh, position = pos\<rparr>, hp = 100, maxHp = 100,
      wobbleOffset = rndWobble * pi * 2, speedOffset = rndSpeed * 2,
      velocity = Vector3 0 0 0\<rparr>"

definition spawnEnemy :: "Frame \<Rightarrow> World \<Rightarrow> World" where
  "spawnEnemy f w =
     (let targetEnemyCount = min 15 (2 + wave (closureState w) * 2) in
      if int (length (enemiesRef w)) < targetEnemyCount \<and> rnd_spawn f < 0.015
      then
        let spawnDistance = 60;
            cam = cameraPosition w;
            spawnZ = vz cam - spawnDistance;
            spawnX = vx cam + (rnd_spawnX f - 0.5) * 30;
            spawnY = vy cam + rnd_spawnY f * 8 - 2
        in w\<lparr>enemiesRef := enemiesRef w @
                 [newEnemy (nextOid w) (Vector3 spawnX spawnY spawnZ) (rnd_id f) (rnd_wobble f)
                    (rnd_speed f)],
              nextOid := nextOid w + 2\<rparr>
      else w)"

text \<open>
  Steering of one enemy. The source also copies \<open>desiredDir\<close> into the velocity when the
  current direction is zero; the assignment of the new velocity two lines later overwrites
  it.
\<close>

definition steerEnemy :: "real \<Rightarrow> int \<Rightarrow> Vector3 \<Rightarrow> Enemy \<Rightarrow> Enemy" where
  "steerEnemy delta wv cam enemy =
     (let approachSpeed = 5.0 + real_of_int wv * 0.3 + speedOffset enemy;
          targetPos = Vector3 (vx cam) 1.0 (vz cam);
          desiredDir = normalize_v3 (sub_v3 targetPos (position (mesh enemy)));
          distToPlayer = distanceTo (position (mesh enemy)) cam;
          steerFactor = (if distToPlayer < 20 then 0.5 * delta else 5.0 * delta);
          currentDir = normalize_v3 (velocity enemy);
          newDir = normalize_v3 (lerp_v3 currentDir desiredDir steerFactor);
          vel = multiplyScalar newDir approachSpeed;
          pos = add_v3 (position (mesh enemy)) (multiplyScalar vel delta)
      in enemy\<lparr>velocity := vel, mesh := (mesh enemy)\<lparr>position := pos\<rparr>,
               hitbox := (hitbox enemy)\<lparr>position := pos\<rparr>\<rparr>)"

text \<open>The axis-aligned collision test of an enemy position against the camera.\<close>

definition collides :: "Vector3 \<Rightarrow> Vector3 \<Rightarrow> bool" where
  "collides ePos cam =
     (let pX = vx cam; pZ = vz cam;
          hitRadius = 1.5; pWidth = 0.5; pHeight = 1.8; pDepth = 0.5;
          collisionX = (\<bar>vx ePos - pX\<bar> < pWidth + hitRadius);
          collisionZ = (\<bar>vz ePos - pZ\<bar> < pDepth + hitRadius);
          collisionY = (vy ePos < pHeight + hitRadius \<and> vy ePos > - hitRadius)
      in collisionX \<and> collisionZ \<and> collisionY)"

text \<open>\<open>submitScore\<close> writes nothing while the score store is not available.\<close>

definition submitScore :: "int \<Rightarrow> World \<Rightarrow> World" where
  "submitScore finalScore w =
     (if \<not> dbRef w \<or> userIdRef w = None \<or> app_id w = None then w
      else emit (AddDoc (nickname w) finalScore (the (userIdRef w))) w)"

text \<open>The state updater of the collision path, with its side effects.\<close>

definition collisionUpdater :: "World \<Rightarrow> World" where
  "collisionUpdater w =
     (let prev = gameState w;
          newHp = health prev - 20;
          w1 = (if newHp \<le> 20 \<and> newHp > 0 then playSound Low_hp w else w)
      in if newHp \<le> 0
         then (submitScore (score prev) (emit ExitPointerLock w1))
                \<lparr>gameState := prev\<lparr>health := 0, status := Gameover\<rparr>\<rparr>
         else w1\<lparr>gameState := prev\<lparr>health := newHp\<rparr>\<rparr>)"

text \<open>The body of the enemy loop for index \<open>i\<close>, and the loop from the last index down.\<close>

definition enemyStep :: "real \<Rightarrow> nat \<Rightarrow> World \<Rightarrow> World option" where
  "enemyStep delta i w =
     (case arrayAt (enemiesRef w) i of
        None \<Rightarrow> None
      | Some enemy0 \<Rightarrow>
          let enemy = steerEnemy delta (wave (closureState w)) (cameraPosition w) enemy0;
              w1 = w\<lparr>enemiesRef := (enemiesRef w)[i := enemy]\<rparr>
          in if collides (position (mesh enemy)) (cameraPosition w1)
             then
               (case destroyEnemy i 0
                   (addShake 1.0
                     (spawnExplosion (add_v3 (cameraPosition w1) (Vector3 0 0 (- 1))) w1)) of
                  None \<Rightarrow> None
                | Some w2 \<Rightarrow> Some (collisionUpdater w2))
             else if vz (position (mesh enemy)) > vz (cameraPosition w1) + 20
             then Some (w1\<lparr>enemiesRef := splice1 i (enemiesRef w1)\<rparr>)
             else Some w1)"

primrec enemyLoop :: "real \<Rightarrow> nat \<Rightarrow> World \<Rightarrow> World option" where
  "enemyLoop delta 0 w = Some w"
| "enemyLoop delta (Suc i) w =
     (case enemyStep delta i w of
        None \<Rightarrow> None
      | Some w' \<Rightarrow> enemyLoop delta i w')"

text \<open>
  One call of \<open>animate\<close>. The updates of the effect pools (beams, arcs, shock waves,
  particles, damage texts) and of the HUD state only redraw what the event log records,
  and are left out.
\<close>

definition animate :: "Frame \<Rightarrow> World \<Rightarrow> World option" where
  "animate f w =
     (let delta = min ((perf_now f - lastTime w) / 1000) 0.1;
          now = date_now f;
          w1 = w\<lparr>lastTime := perf_now f,
                 cursorPositionRef :=
                   (lerp (fst (cursorPositionRef w)) (fst (targetCursorPositionRef w)) 0.15,
                    lerp (snd (cursorPositionRef w)) (snd (targetCursorPositionRef w)) 0.15)\<rparr>;
          w2 = (if status (closureState w1) = Playing then flightAndRegen delta w1 else w1);
          w3 = cameraShake delta f w2
      in case pollGesture f w3 of
           None \<Rightarrow> None
         | Some w4 \<Rightarrow>
             if status (closureState w4) \<noteq> Playing then Some w4
             else
               let w5 = spawnEnemy f (waveTimer now w4)
               in enemyLoop delta (length (enemiesRef w5)) w5)"

section \<open>Starting a game, rendering, and the reachable states\<close>

definition startGame :: "int \<Rightarrow> World \<Rightarrow> World" where
  "startGame now w =
     w\<lparr>audioCtxRef := True,
       gameState := \<lparr>status = Playing, health = 100, score = 0, wave = 1, enemies = [],
                     beamCharges = 5\<rparr>,
       waveStartTimeRef := now, beamRegenTimerRef := 0, enemiesRef := [],
       cameraRotation := (0, 0), cameraPosition := Vector3 0 PLAYER_HEIGHT 0\<rparr>"

text \<open>
  The effect that owns the loop depends on \<open>gameState.status\<close> and \<open>gameState.wave\<close>: when
  a render finds one of them changed, the effect runs again, with a new camera at the
  origin and a closure over the state of that render.
\<close>

definition render :: "real \<Rightarrow> World \<Rightarrow> World" where
  "render perfNow w =
     (if status (gameState w) \<noteq> status (closureState w) \<or>
         wave (gameState w) \<noteq> wave (closureState w)
      then w\<lparr>closureState := gameState w, cameraPosition := Vector3 0 PLAYER_HEIGHT 0,
             cameraRotation := (0, 0), lastTime := perfNow\<rparr>
      else w)"

definition initialGameState :: GameState where
  "initialGameState =
     \<lparr>status = Menu, health = 100, score = 0, wave = 1, enemies = [], beamCharges = 5\<rparr>"

definition initialWorld :: "real \<Rightarrow> bool \<Rightarrow> string option \<Rightarrow> string option \<Rightarrow> string \<Rightarrow> World" where
  "initialWorld perfNow db uid app nick =
     \<lparr>gameState = initialGameState, closureState = initialGameState, enemiesRef = [],
      lastShotTimeRef = 0, waveStartTimeRef = 0, lastGestureTimeRef = 0,
      beamRegenTimerRef = 0, cursorPositionRef = (0.5, 0.5),
      targetCursorPositionRef = (0.5, 0.5), shakeIntensityRef = 0,
      cameraPosition = Vector3 0 PLAYER_HEIGHT 0, cameraRotation = (0, 0),
      lastTime = perfNow, nextOid = 0, audioCtxRef = False, dbRef = db, userIdRef = uid,
      app_id = app, nickname = nick, events = []\<rparr>"

text \<open>
  The handlers: a frame, a mouse button (the repulsor), the space key (the unibeam), a mouse
  move, the start button, and a render of the component.
\<close>

datatype Input =
    Tick Frame
  | MouseDown int "Intersection list"
  | KeyDownSpace int
  | MouseMove real real
  | StartGame int
  | Render real

fun step :: "Input \<Rightarrow> World \<Rightarrow> World option" where
  "step (Tick f) w = animate f w"
| "step (MouseDown now intersects) w = fireRepulsor now intersects w"
| "step (KeyDownSpace now) w = triggerUnibeam now w"
| "step (MouseMove x y) w = Some (w\<lparr>targetCursorPositionRef := (x, y)\<rparr>)"
| "step (StartGame now) w = Some (startGame now w)"
| "step (Render perfNow) w = Some (render perfNow w)"

inductive reachable :: "World \<Rightarrow> bool" where
  initial: "reachable (initialWorld perfNow db uid app nick)"
| after: "reachable w \<Longrightarrow> step i w = Some w' \<Longrightarrow> reachable w'"

fun run :: "Input list \<Rightarrow> World \<Rightarrow> World option" where
  "run [] w = Some w"
| "run (i # rest) w = (case step i w of None \<Rightarrow> None | Some w' \<Rightarrow> run rest w')"

section \<open>Auxiliary definitions of the proofs\<close>

text \<open>
  The test of the unibeam's loop, the indices it collects and the events it emits, as
  functions of the camera position and the enemy list.
\<close>

definition inRadius :: "Vector3 \<Rightarrow> Enemy \<Rightarrow> bool" where
  "inRadius cam enemy = (distanceTo (position (mesh enemy)) cam < 80)"

primrec hitIndices :: "Vector3 \<Rightarrow> nat \<Rightarrow> Enemy list \<Rightarrow> nat list" where
  "hitIndices cam idx [] = []"
| "hitIndices cam idx (enemy # rest) =
     (if inRadius cam enemy then [idx] else []) @ hitIndices cam (Suc idx) rest"

primrec blastEvents :: "Vector3 \<Rightarrow> Enemy list \<Rightarrow> Event list" where
  "blastEvents cam [] = []"
| "blastEvents cam (enemy # rest) =
     (if inRadius cam enemy
      then [SpawnExplosion (position (mesh enemy)), SpawnDamageText (position (mesh enemy)) 9999 True]
      else []) @ blastEvents cam rest"

definition beamEvents :: "int \<Rightarrow> World \<Rightarrow> Event list" where
  "beamEvents dateNow w =
     (if audioCtxRef w then [PlaySound Beam] else []) @ replicate 8 GenerateLightning @
     [SpawnShockwave, ActiveLine (dateNow + 500)] @
     blastEvents (cameraPosition w) (enemiesRef w)"

text \<open>Concrete worlds for the instances: a running game with given charges and enemies.\<close>

definition demoEnemy :: "nat \<Rightarrow> Vector3 \<Rightarrow> Enemy" where
  "demoEnemy fresh pos = newEnemy fresh pos 0 0 0"

definition demoWorld :: "int \<Rightarrow> Enemy list \<Rightarrow> World" where
  "demoWorld charges es =
     (initialWorld 0 False None None [])\<lparr>enemiesRef := es,
        gameState := initialGameState\<lparr>status := Playing, beamCharges := charges\<rparr>,
        closureState := initialGameState\<lparr>status := Playing\<rparr>, audioCtxRef := True\<rparr>"

text \<open>The events of an accepted shot and of a hit, and the explosions of a log.\<close>

definition shotEvents :: "int \<Rightarrow> World \<Rightarrow> Event list" where
  "shotEvents now w =
     (if audioCtxRef w then [PlaySound Shoot] else []) @
     [SetIsFiring, ActiveLine now, ActiveLine now]"

definition hitEvents :: "Vector3 \<Rightarrow> World \<Rightarrow> Event list" where
  "hitEvents pos w =
     [SetHitMarker, SpawnDamageText pos 100 False] @
     (if audioCtxRef w then [PlaySound Hit] else [])"

primrec explosions :: "Event list \<Rightarrow> Vector3 list" where
  "explosions [] = []"
| "explosions (e # es) = (case e of SpawnExplosion pos \<Rightarrow> [pos] | _ \<Rightarrow> []) @ explosions es"

definition demoHit :: "nat \<Rightarrow> Intersection" where
  "demoHit target = \<lparr>distance = 10, point = Vector3 0 1 (- 8), object = target\<rparr>"

text \<open>The events of the transition to game over.\<close>

definition storeReady :: "World \<Rightarrow> bool" where
  "storeReady w = (dbRef w \<and> userIdRef w \<noteq> None \<and> app_id w \<noteq> None)"

definition gameOverEvents :: "World \<Rightarrow> Event list" where
  "gameOverEvents w =
     ExitPointerLock #
     (if storeReady w then [AddDoc (nickname w) (score (gameState w)) (the (userIdRef w))]
      else [])"

text \<open>
  The bounds of the game state, and the relation between a world and a later world of the
  same life: the score has not dropped, bounds that held still hold and the health has not
  risen, and the smoothed cursor is the same.
\<close>

definition stateBounds :: "GameState \<Rightarrow> bool" where
  "stateBounds g \<longleftrightarrow>
     0 \<le> health g \<and> health g \<le> 100 \<and> 0 \<le> beamCharges g \<and>
     beamCharges g \<le> MAX_BEAM_CHARGES \<and> 0 \<le> score g"

definition sameLife :: "World \<Rightarrow> World \<Rightarrow> bool" where
  "sameLife w w' \<longleftrightarrow>
     score (gameState w) \<le> score (gameState w') \<and>
     (stateBounds (gameState w) \<longrightarrow>
        stateBounds (gameState w') \<and> health (gameState w') \<le> health (gameState w)) \<and>
     cursorPositionRef w' = cursorPositionRef w"

text \<open>The smoothed cursor after one frame.\<close>

definition smoothed :: "World \<Rightarrow> real \<times> real" where
  "smoothed w =
     (lerp (fst (cursorPositionRef w)) (fst (targetCursorPositionRef w)) 0.15,
      lerp (snd (cursorPositionRef w)) (snd (targetCursorPositionRef w)) 0.15)"

text \<open>
  A start configuration with a score store, a frame without gesture input (16 ms after the
  last one when the clocks say so), the world after a first frame that spawns an enemy, and
  a world late in a game: health 20, score 130, two enemies about to reach the player.
\<close>

definition demoInitial :: World where
  "demoInitial = initialWorld 0 True (Some ''pilot'') (Some ''app'') ''STARK-7''"

definition demoFrame :: "real \<Rightarrow> int \<Rightarrow> real \<Rightarrow> Frame" where
  "demoFrame perfNow dateNow rndSpawn =
     \<lparr>perf_now = perfNow, date_now = dateNow, rnd_shakeX = 0.5, rnd_shakeY = 0.5,
      recognition = None, shot_now = dateNow, shot_intersects = [], rnd_spawn = rndSpawn,
      rnd_spawnX = 0.5, rnd_spawnY = 0.1875, rnd_id = 0.25, rnd_wobble = 0, rnd_speed = 0\<rparr>"

definition demoTicked :: World where
  "demoTicked = (render 0 (startGame 0 demoInitial))
     \<lparr>lastTime := 16, cameraPosition := Vector3 0 1.5 (- 0.24),
      enemiesRef := [(newEnemy 0 (Vector3 0 1 (- 60.1552)) 0.25 0 0)\<lparr>velocity := Vector3 0 0 5.3\<rparr>],
      nextOid := 2\<rparr>"

definition doomedWorld :: World where
  "doomedWorld = (render 0 (startGame 0 demoInitial))
     \<lparr>gameState := \<lparr>status = Playing, health = 20, score = 130, wave = 1, enemies = [],
                     beamCharges = 5\<rparr>,
      enemiesRef := [(newEnemy 0 (Vector3 0 1 (- 1.24)) 0.25 0 0)\<lparr>velocity := Vector3 0 0 5.3\<rparr>,
                     (newEnemy 2 (Vector3 0 1 (- 1.74)) 0.75 0 0)\<lparr>velocity := Vector3 0 0 5.3\<rparr>],
      nextOid := 4\<rparr>"

text \<open>
  Well-formed worlds: the hit boxes of the live enemies are pairwise different objects, all
  allocated before \<open>nextOid\<close>, and an audio context exists as soon as a game was started.
  The relation \<open>keeps\<close> holds between a world and a later one when the audio context and
  the closure are the same, the status has changed only under a closure in play, and
  well-formed identities stay well-formed.
\<close>

definition idsOk :: "World \<Rightarrow> bool" where
  "idsOk w \<longleftrightarrow>
     distinct (map (\<lambda>e. oid (hitbox e)) (enemiesRef w)) \<and>
     (\<forall>e \<in> set (enemiesRef w). oid (hitbox e) < nextOid w)"

definition wellFormed :: "World \<Rightarrow> bool" where
  "wellFormed w \<longleftrightarrow>
     idsOk w \<and>
     (status (gameState w) \<noteq> Menu \<longrightarrow> audioCtxRef w) \<and>
     (status (closureState w) \<noteq> Menu \<longrightarrow> audioCtxRef w)"

definition keeps :: "World \<Rightarrow> World \<Rightarrow> bool" where
  "keeps w w' \<longleftrightarrow>
     audioCtxRef w' = audioCtxRef w \<and> closureState w' = closureState w \<and>
     (status (gameState w') \<noteq> status (gameState w) \<longrightarrow> status (closureState w) = Playing) \<and>
     (idsOk w \<longrightarrow> idsOk w')"

text \<open>A game in play after one unibeam shot: the closure still holds the full charges.\<close>

definition demoShot :: World where
  "demoShot = (render 0 (startGame 0 demoInitial))
     \<lparr>gameState := \<lparr>status = Playing, health = 100, score = 0, wave = 1, enemies = [],
                     beamCharges = 4\<rparr>\<rparr>"

section \<open>Properties of the unibeam\<close>

lemma triggerUnibeam_no_charge:
  "beamCharges (gameState w) \<le> 0 \<Longrightarrow> triggerUnibeam dateNow w = Some w"
  by (simp add: triggerUnibeam_def)

lemma forEachEnemy_char:
  "forEachEnemy idx es (r, w) =
     (r @ hitIndices (cameraPosition w) idx es,
      w\<lparr>events := events w @ blastEvents (cameraPosition w) es\<rparr>)"
proof (induction es arbitrary: idx r w)
  case Nil
  then show ?case by simp
next
  case (Cons e es)
  then show ?case
    by (simp add: Let_def inRadius_def spawnDamageText_def spawnExplosion_def emit_def)
qed

lemma hitIndices_bounds:
  "i \<in> set (hitIndices cam idx es) \<Longrightarrow> idx \<le> i \<and> i < idx + length es"
  by (induction es arbitrary: idx) (fastforce split: if_splits)+

lemma hitIndices_sorted: "sorted (hitIndices cam idx es)"
proof (induction es arbitrary: idx)
  case Nil
  then show ?case by simp
next
  case (Cons e es)
  have "\<forall>i \<in> set (hitIndices cam (Suc idx) es). idx \<le> i"
    by (auto dest: hitIndices_bounds)
  with Cons show ?case by simp
qed

lemma hitIndices_length:
  "length (hitIndices cam idx es) = length (filter (inRadius cam) es)"
  by (induction es arbitrary: idx) auto

lemma removeEnemies_append:
  "removeEnemies (xs @ ys) arr =
     (case removeEnemies xs arr of None \<Rightarrow> None | Some arr' \<Rightarrow> removeEnemies ys arr')"
  by (induction xs arbitrary: arr) (auto split: option.splits)

lemma removeEnemies_hitIndices:
  "idx = length pre \<Longrightarrow>
   removeEnemies (rev (hitIndices cam idx es)) (pre @ es) =
     Some (pre @ filter (\<lambda>e. \<not> inRadius cam e) es)"
proof (induction es arbitrary: pre idx)
  case Nil
  then show ?case by simp
next
  case (Cons e es)
  have "removeEnemies (rev (hitIndices cam (Suc idx) es)) ((pre @ [e]) @ es) =
      Some ((pre @ [e]) @ filter (\<lambda>e. \<not> inRadius cam e) es)"
    by (rule Cons.IH) (simp add: Cons.prems)
  then show ?case
    using Cons.prems
    by (simp add: removeEnemies_append arrayAt_def splice1_def)
qed

lemma sortDescending_hitIndices:
  "sortDescending (hitIndices cam idx es) = rev (hitIndices cam idx es)"
  by (simp add: sortDescending_def sorted_sort_id hitIndices_sorted)

lemma generateLightning_funpow:
  "(generateLightning ^^ n) w = w\<lparr>events := events w @ replicate n GenerateLightning\<rparr>"
proof (induction n)
  case 0
  then show ?case by simp
next
  case (Suc n)
  then show ?case
    by (simp add: generateLightning_def emit_def replicate_append_same)
qed

lemma triggerUnibeam_charged:
  assumes "0 < beamCharges (gameState w)"
  shows "triggerUnibeam dateNow w =
    Some (w\<lparr>shakeIntensityRef := min (shakeIntensityRef w + 2) 2,
            events := events w @ beamEvents dateNow w,
            enemiesRef := filter (\<lambda>e. \<not> inRadius (cameraPosition w) e) (enemiesRef w),
            gameState := (gameState w)\<lparr>beamCharges := beamCharges (gameState w) - 1,
              score := score (gameState w) +
                int (length (filter (inRadius (cameraPosition w)) (enemiesRef w))) * 50\<rparr>\<rparr>)"
proof -
  have rem: "removeEnemies (rev (hitIndices cam 0 es)) es =
      Some (filter (\<lambda>e. \<not> inRadius cam e) es)" for cam es
    using removeEnemies_hitIndices [of 0 "[]" cam es] by simp
  show ?thesis
    using assms
    by (simp add: triggerUnibeam_def Let_def forEachEnemy_char generateLightning_funpow
        sortDescending_hitIndices rem hitIndices_length beamEvents_def
        addShake_def playSound_def spawnShockwave_def emit_def)
qed

lemma distanceTo_less_iff:
  "0 \<le> r \<Longrightarrow> distanceTo a b < r \<longleftrightarrow>
     (vx a - vx b) * (vx a - vx b) + (vy a - vy b) * (vy a - vy b) +
     (vz a - vz b) * (vz a - vz b) < r * r"
proof -
  assume r: "0 \<le> r"
  have "sqrt (r * r) = r" using r by simp
  then have "distanceTo a b < r \<longleftrightarrow> distanceTo a b < sqrt (r * r)" by simp
  also have "\<dots> \<longleftrightarrow> (vx a - vx b) * (vx a - vx b) + (vy a - vy b) * (vy a - vy b) +
     (vz a - vz b) * (vz a - vz b) < r * r"
    unfolding distanceTo_def length_v3_def sub_v3_def by (simp only: real_sqrt_less_iff Vector3.sel)
  finally show ?thesis .
qed


lemmas demo_defs = demoWorld_def demoEnemy_def newEnemy_def initialWorld_def
  initialGameState_def PLAYER_HEIGHT_def

text \<open>
  Claim C1. An activation of the unibeam with a charge left removes from the live enemies
  exactly those nearer than 80 to the camera position, each with an explosion, and adds 50
  points for each; the enemies at distance 80 or more stay in the list as they were, in
  their order; and neither the cursor nor the camera rotation has any influence on the
  enemies removed or on the resulting game state.
\<close>

theorem unibeam_player_centered:
  assumes "0 < beamCharges (gameState w)"
  shows "\<exists>w'. triggerUnibeam dateNow w = Some w' \<and>
    enemiesRef w' =
      filter (\<lambda>enemy. \<not> distanceTo (position (mesh enemy)) (cameraPosition w) < 80)
        (enemiesRef w) \<and>
    score (gameState w') = score (gameState w) +
      50 * int (length (filter (\<lambda>enemy. distanceTo (position (mesh enemy)) (cameraPosition w) < 80)
        (enemiesRef w))) \<and>
    (\<forall>enemy \<in> set (enemiesRef w).
       distanceTo (position (mesh enemy)) (cameraPosition w) < 80 \<longrightarrow>
         enemy \<notin> set (enemiesRef w') \<and>
         SpawnExplosion (position (mesh enemy)) \<in> set (events w')) \<and>
    (\<forall>enemy \<in> set (enemiesRef w).
       80 \<le> distanceTo (position (mesh enemy)) (cameraPosition w) \<longrightarrow>
         enemy \<in> set (enemiesRef w')) \<and>
    (\<forall>cursor rotation.
       map_option (\<lambda>v. (enemiesRef v, gameState v))
         (triggerUnibeam dateNow (w\<lparr>cursorPositionRef := cursor, cameraRotation := rotation\<rparr>)) =
       Some (enemiesRef w', gameState w'))"
proof -
  let ?near = "\<lambda>enemy. distanceTo (position (mesh enemy)) (cameraPosition w) < 80"
  let ?w' = "w\<lparr>shakeIntensityRef := min (shakeIntensityRef w + 2) 2,
            events := events w @ beamEvents dateNow w,
            enemiesRef := filter (\<lambda>e. \<not> ?near e) (enemiesRef w),
            gameState := (gameState w)\<lparr>beamCharges := beamCharges (gameState w) - 1,
              score := score (gameState w) + int (length (filter ?near (enemiesRef w))) * 50\<rparr>\<rparr>"
  have near: "inRadius (cameraPosition w) = ?near"
    by (rule ext) (simp add: inRadius_def)
  have fire: "triggerUnibeam dateNow w = Some ?w'"
    using triggerUnibeam_charged [OF assms, of dateNow] by (simp only: near)
  have ev: "SpawnExplosion (position (mesh enemy)) \<in> set (blastEvents cam es)"
    if "enemy \<in> set es" "inRadius cam enemy" for enemy cam es
    using that by (induction es) auto
  have aim: "map_option (\<lambda>v. (enemiesRef v, gameState v))
         (triggerUnibeam dateNow (w\<lparr>cursorPositionRef := cursor, cameraRotation := rotation\<rparr>)) =
       Some (enemiesRef ?w', gameState ?w')" for cursor rotation
    using assms by (simp add: triggerUnibeam_charged near)
  have c1: "enemiesRef ?w' = filter (\<lambda>e. \<not> ?near e) (enemiesRef w)" by simp
  have c2: "score (gameState ?w') =
      score (gameState w) + 50 * int (length (filter ?near (enemiesRef w)))" by simp
  have c3: "\<forall>enemy \<in> set (enemiesRef w). ?near enemy \<longrightarrow>
      enemy \<notin> set (enemiesRef ?w') \<and> SpawnExplosion (position (mesh enemy)) \<in> set (events ?w')"
    by (simp add: beamEvents_def ev inRadius_def)
  have c4: "\<forall>enemy \<in> set (enemiesRef w).
      80 \<le> distanceTo (position (mesh enemy)) (cameraPosition w) \<longrightarrow> enemy \<in> set (enemiesRef ?w')"
    by (simp add: not_less)
  have c5: "\<forall>cursor rotation. map_option (\<lambda>v. (enemiesRef v, gameState v))
         (triggerUnibeam dateNow (w\<lparr>cursorPositionRef := cursor, cameraRotation := rotation\<rparr>)) =
       Some (enemiesRef ?w', gameState ?w')"
    using aim by blast
  show ?thesis
    by (rule exI [of _ ?w']) (intro conjI fire c1 c2 c3 c4 c5)
qed

theorem unibeam_player_centered_witness:
  "\<exists>w'. triggerUnibeam 0 (demoWorld 3 [demoEnemy 0 (Vector3 0 1 (-10)),
       demoEnemy 2 (Vector3 3 2 (-20)), demoEnemy 4 (Vector3 0 1 (-100))]) = Some w' \<and>
     enemiesRef w' = [demoEnemy 4 (Vector3 0 1 (-100))] \<and>
     score (gameState w') = 100"
  using unibeam_player_centered [of "demoWorld 3 [demoEnemy 0 (Vector3 0 1 (-10)),
       demoEnemy 2 (Vector3 3 2 (-20)), demoEnemy 4 (Vector3 0 1 (-100))]" 0]
  by (auto simp: demo_defs distanceTo_less_iff)

text \<open>
  Claim C2. Without a charge an activation of the unibeam returns the world as it was;
  with a charge it succeeds and takes exactly one charge.
\<close>

theorem unibeam_requires_charge:
  "(beamCharges (gameState w) \<le> 0 \<longrightarrow> triggerUnibeam dateNow w = Some w) \<and>
   (0 < beamCharges (gameState w) \<longrightarrow>
      (\<exists>w'. triggerUnibeam dateNow w = Some w' \<and>
         beamCharges (gameState w') = beamCharges (gameState w) - 1))"
  by (simp add: triggerUnibeam_no_charge triggerUnibeam_charged)

theorem unibeam_requires_charge_witness:
  "triggerUnibeam 7 (demoWorld 0 [demoEnemy 0 (Vector3 0 1 (-10))]) =
     Some (demoWorld 0 [demoEnemy 0 (Vector3 0 1 (-10))]) \<and>
   (\<exists>w'. triggerUnibeam 7 (demoWorld 3 [demoEnemy 0 (Vector3 0 1 (-10))]) = Some w' \<and>
      beamCharges (gameState w') = 2)"
  using unibeam_requires_charge [of "demoWorld 0 [demoEnemy 0 (Vector3 0 1 (-10))]" 7]
    unibeam_requires_charge [of "demoWorld 3 [demoEnemy 0 (Vector3 0 1 (-10))]" 7]
  by (simp add: demo_defs)

text \<open>
  Claim C10. An activation with a charge and no enemy nearer than 80 to the camera takes
  one charge and changes no other field of the game state (status, health, score, wave),
  and the list of live enemies stays as it was.
\<close>

theorem unibeam_miss_spends_charge:
  assumes "0 < beamCharges (gameState w)"
    and "\<forall>enemy \<in> set (enemiesRef w).
           \<not> distanceTo (position (mesh enemy)) (cameraPosition w) < 80"
  shows "\<exists>w'. triggerUnibeam dateNow w = Some w' \<and>
    gameState w' = (gameState w)\<lparr>beamCharges := beamCharges (gameState w) - 1\<rparr> \<and>
    enemiesRef w' = enemiesRef w"
proof -
  have none: "filter (inRadius (cameraPosition w)) (enemiesRef w) = []"
    using assms(2) by (simp add: inRadius_def filter_empty_conv)
  have all: "filter (\<lambda>e. \<not> inRadius (cameraPosition w) e) (enemiesRef w) = enemiesRef w"
    using assms(2) by (simp add: inRadius_def filter_id_conv)
  show ?thesis
    by (simp add: triggerUnibeam_charged [OF assms(1)] none all)
qed

theorem unibeam_miss_spends_charge_witness:
  "\<exists>w'. triggerUnibeam 0 (demoWorld 1 [demoEnemy 0 (Vector3 0 1 (-100))]) = Some w' \<and>
     gameState w' = initialGameState\<lparr>status := Playing, beamCharges := 0\<rparr> \<and>
     enemiesRef w' = [demoEnemy 0 (Vector3 0 1 (-100))]"
  using unibeam_miss_spends_charge [of "demoWorld 1 [demoEnemy 0 (Vector3 0 1 (-100))]" 0]
  by (simp add: demo_defs distanceTo_less_iff)

section \<open>Properties of the repulsor\<close>

lemma findIndex_Some: "findIndex p xs = Some i \<Longrightarrow> i < length xs \<and> p (xs ! i)"
  by (induction xs arbitrary: i) (auto split: if_splits)

lemma findIndex_None: "findIndex p xs = None \<longleftrightarrow> (\<forall>x \<in> set xs. \<not> p x)"
  by (induction xs) auto

lemma splice1_update: "splice1 i (xs[i := x]) = splice1 i xs"
  by (simp add: splice1_def)

lemma fireRepulsor_cooldown:
  "now - lastShotTimeRef w < REPULSOR_COOLDOWN_MS \<Longrightarrow> fireRepulsor now intersects w = Some w"
  by (simp add: fireRepulsor_def)

lemma fireRepulsor_miss:
  assumes "\<not> now - lastShotTimeRef w < REPULSOR_COOLDOWN_MS"
    and "(case intersects of [] \<Rightarrow> None
          | first # _ \<Rightarrow> findIndex (\<lambda>e. oid (hitbox e) = object first) (enemiesRef w)) = None"
  shows "fireRepulsor now intersects w =
    Some (w\<lparr>lastShotTimeRef := now,
           shakeIntensityRef := min (shakeIntensityRef w + 0.08) 2,
           events := events w @ shotEvents now w\<rparr>)"
  using assms
  by (cases intersects)
    (simp_all add: fireRepulsor_def Let_def addShake_def playSound_def emit_def shotEvents_def)

lemma fireRepulsor_hit:
  assumes "\<not> now - lastShotTimeRef w < REPULSOR_COOLDOWN_MS"
    and "intersects = first # others"
    and "findIndex (\<lambda>e. oid (hitbox e) = object first) (enemiesRef w) = Some i"
  shows "fireRepulsor now intersects w =
    Some (let enemy = enemiesRef w ! i; pos = position (mesh enemy) in
      if hp enemy - 100 \<le> 0
      then w\<lparr>lastShotTimeRef := now,
             shakeIntensityRef := min (shakeIntensityRef w + 0.08) 2,
             events := events w @ shotEvents now w @ hitEvents pos w @ [SpawnExplosion pos],
             enemiesRef := splice1 i (enemiesRef w),
             gameState := (gameState w)\<lparr>score := score (gameState w) + 10\<rparr>\<rparr>
      else w\<lparr>lastShotTimeRef := now,
             shakeIntensityRef := min (shakeIntensityRef w + 0.08) 2,
             events := events w @ shotEvents now w @ hitEvents pos w,
             enemiesRef := (enemiesRef w)[i := enemy\<lparr>hp := hp enemy - 100\<rparr>]\<rparr>)"
proof -
  have i: "i < length (enemiesRef w)"
    using findIndex_Some [OF assms(3)] by simp
  show ?thesis
    using assms i
    by (simp add: fireRepulsor_def Let_def addShake_def playSound_def emit_def shotEvents_def
        hitEvents_def arrayAt_def destroyEnemy_def spawnDamageText_def spawnExplosion_def
        splice1_update)
qed

lemma fireRepulsor_total: "\<exists>w'. fireRepulsor now intersects w = Some w'"
proof (cases "now - lastShotTimeRef w < REPULSOR_COOLDOWN_MS")
  case True
  then show ?thesis by (simp add: fireRepulsor_cooldown)
next
  case False
  show ?thesis
  proof (cases "case intersects of [] \<Rightarrow> None
          | first # _ \<Rightarrow> findIndex (\<lambda>e. oid (hitbox e) = object first) (enemiesRef w)")
    case None
    then show ?thesis using False by (simp add: fireRepulsor_miss)
  next
    case (Some i)
    then obtain first others where "intersects = first # others"
      and "findIndex (\<lambda>e. oid (hitbox e) = object first) (enemiesRef w) = Some i"
      by (cases intersects) auto
    then show ?thesis using False by (simp add: fireRepulsor_hit)
  qed
qed

lemma explosions_append: "explosions (xs @ ys) = explosions xs @ explosions ys"
  by (induction xs) auto

lemma explosions_shot: "explosions (shotEvents now w) = []" "explosions (hitEvents pos w) = []"
  by (simp_all add: shotEvents_def hitEvents_def)

lemma fireRepulsor_hitboxes:
  assumes "fireRepulsor now intersects w = Some w'"
  shows "(\<lambda>e. oid (hitbox e)) ` set (enemiesRef w') \<subseteq> (\<lambda>e. oid (hitbox e)) ` set (enemiesRef w)"
proof (cases "now - lastShotTimeRef w < REPULSOR_COOLDOWN_MS")
  case True
  then show ?thesis using assms by (simp add: fireRepulsor_cooldown)
next
  case False
  show ?thesis
  proof (cases "case intersects of [] \<Rightarrow> None
          | first # _ \<Rightarrow> findIndex (\<lambda>e. oid (hitbox e) = object first) (enemiesRef w)")
    case None
    then show ?thesis using False assms by (auto simp: fireRepulsor_miss)
  next
    case (Some i)
    then obtain first others where hit: "intersects = first # others"
      "findIndex (\<lambda>e. oid (hitbox e) = object first) (enemiesRef w) = Some i"
      by (cases intersects) auto
    let ?es = "enemiesRef w"
    have i: "i < length ?es" using findIndex_Some [OF hit(2)] by simp
    have upd: "(\<lambda>e. oid (hitbox e)) ` set (?es[i := (?es ! i)\<lparr>hp := h\<rparr>]) \<subseteq>
        (\<lambda>e. oid (hitbox e)) ` set ?es" for h
    proof
      fix x assume "x \<in> (\<lambda>e. oid (hitbox e)) ` set (?es[i := (?es ! i)\<lparr>hp := h\<rparr>])"
      then obtain e where e: "e \<in> set (?es[i := (?es ! i)\<lparr>hp := h\<rparr>])" "x = oid (hitbox e)"
        by blast
      then have "e = (?es ! i)\<lparr>hp := h\<rparr> \<or> e \<in> set ?es"
        using set_update_subset_insert [of ?es i] by blast
      then show "x \<in> (\<lambda>e. oid (hitbox e)) ` set ?es"
        using e(2) i nth_mem [OF i] by (metis (mono_tags, lifting) Enemy.select_convs(3) Enemy.surjective Enemy.update_convs(4) image_eqI)
    qed
    have spl: "(\<lambda>e. oid (hitbox e)) ` set (splice1 i ?es) \<subseteq> (\<lambda>e. oid (hitbox e)) ` set ?es"
      by (auto simp: splice1_def dest: in_set_takeD in_set_dropD)
    have "w' = (let enemy = ?es ! i; pos = position (mesh enemy) in
      if hp enemy - 100 \<le> 0
      then w\<lparr>lastShotTimeRef := now,
             shakeIntensityRef := min (shakeIntensityRef w + 0.08) 2,
             events := events w @ shotEvents now w @ hitEvents pos w @ [SpawnExplosion pos],
             enemiesRef := splice1 i ?es,
             gameState := (gameState w)\<lparr>score := score (gameState w) + 10\<rparr>\<rparr>
      else w\<lparr>lastShotTimeRef := now,
             shakeIntensityRef := min (shakeIntensityRef w + 0.08) 2,
             events := events w @ shotEvents now w @ hitEvents pos w,
             enemiesRef := ?es[i := enemy\<lparr>hp := hp enemy - 100\<rparr>]\<rparr>)"
      using assms fireRepulsor_hit [OF False hit] by simp
    then show ?thesis
      using upd [of "hp (?es ! i) - 100"] spl
      by (cases "hp (?es ! i) - 100 \<le> 0") (simp_all add: Let_def)
  qed
qed

text \<open>
  Claim C4. An accepted shot whose nearest intersection is the hit box of a live enemy
  takes 100 hit points from that enemy. An enemy with more than 100 hit points stays, with
  100 less. An enemy with 100 hit points is destroyed by the shot: it is spliced out of
  the live enemies, exactly one explosion is spawned (at its position) and exactly 10 points
  are added; after that no live enemy owns the hit box, a later shot that reports the same
  hit box is a miss (enemies, game state and explosions stay as they are), and no later
  shot brings the hit box back.
\<close>

theorem repulsor_one_shot_kill:
  assumes "\<not> now - lastShotTimeRef w < 200"
    and "findIndex (\<lambda>e. oid (hitbox e) = object first) (enemiesRef w) = Some i"
    and "distinct (map (\<lambda>e. oid (hitbox e)) (enemiesRef w))"
  shows "\<exists>w'. fireRepulsor now (first # others) w = Some w' \<and>
    (100 < hp (enemiesRef w ! i) \<longrightarrow>
       enemiesRef w' = (enemiesRef w)[i := (enemiesRef w ! i)\<lparr>hp := hp (enemiesRef w ! i) - 100\<rparr>] \<and>
       gameState w' = gameState w \<and>
       explosions (events w') = explosions (events w)) \<and>
    (hp (enemiesRef w ! i) = 100 \<longrightarrow>
       enemiesRef w' = take i (enemiesRef w) @ drop (Suc i) (enemiesRef w) \<and>
       gameState w' = (gameState w)\<lparr>score := score (gameState w) + 10\<rparr> \<and>
       explosions (events w') =
         explosions (events w) @ [position (mesh (enemiesRef w ! i))] \<and>
       object first \<notin> (\<lambda>e. oid (hitbox e)) ` set (enemiesRef w') \<and>
       (\<forall>now2 others2. \<exists>w''. fireRepulsor now2 (first # others2) w' = Some w'' \<and>
          enemiesRef w'' = enemiesRef w' \<and> gameState w'' = gameState w' \<and>
          explosions (events w'') = explosions (events w')) \<and>
       (\<forall>now2 intersects2 w''. fireRepulsor now2 intersects2 w' = Some w'' \<longrightarrow>
          object first \<notin> (\<lambda>e. oid (hitbox e)) ` set (enemiesRef w'')))"
proof -
  let ?es = "enemiesRef w"
  let ?enemy = "?es ! i"
  let ?ids = "\<lambda>xs. map (\<lambda>e. oid (hitbox e)) xs"
  have cool: "\<not> now - lastShotTimeRef w < REPULSOR_COOLDOWN_MS"
    using assms(1) by (simp add: REPULSOR_COOLDOWN_MS_def)
  note fire = fireRepulsor_hit [OF cool refl assms(2), of others]
  obtain w' where w': "fireRepulsor now (first # others) w = Some w'"
    using fireRepulsor_total by blast
  have i: "i < length ?es" and at_i: "oid (hitbox ?enemy) = object first"
    using findIndex_Some [OF assms(2)] by simp_all
  have wound: "enemiesRef w' = ?es[i := ?enemy\<lparr>hp := hp ?enemy - 100\<rparr>] \<and>
       gameState w' = gameState w \<and> explosions (events w') = explosions (events w)"
    if "100 < hp ?enemy"
    using that w' fire by (auto simp: Let_def explosions_append explosions_shot)
  have kill: "enemiesRef w' = take i ?es @ drop (Suc i) ?es"
      "gameState w' = (gameState w)\<lparr>score := score (gameState w) + 10\<rparr>"
      "explosions (events w') = explosions (events w) @ [position (mesh ?enemy)]"
    if "hp ?enemy = 100"
    using that w' fire by (auto simp: Let_def explosions_append explosions_shot splice1_def)
  have gone: "object first \<notin> (\<lambda>e. oid (hitbox e)) ` set (enemiesRef w')"
    if hp: "hp ?enemy = 100"
  proof -
    have split: "take i ?es @ ?enemy # drop (Suc i) ?es = ?es"
      using i by (rule id_take_nth_drop [symmetric])
    have "distinct (?ids (take i ?es @ ?enemy # drop (Suc i) ?es))"
      using assms(3) by (simp only: split)
    then have "object first \<notin> set (?ids (take i ?es)) \<and>
        object first \<notin> set (?ids (drop (Suc i) ?es))"
      using at_i by simp
    then show ?thesis by (simp add: kill(1) [OF hp] image_Un)
  qed
  have again: "\<exists>w''. fireRepulsor now2 (first # others2) w' = Some w'' \<and>
          enemiesRef w'' = enemiesRef w' \<and> gameState w'' = gameState w' \<and>
          explosions (events w'') = explosions (events w')"
    if hp: "hp ?enemy = 100" for now2 others2
  proof (cases "now2 - lastShotTimeRef w' < REPULSOR_COOLDOWN_MS")
    case True
    then show ?thesis by (simp add: fireRepulsor_cooldown)
  next
    case False
    have "findIndex (\<lambda>e. oid (hitbox e) = object first) (enemiesRef w') = None"
      using gone [OF hp] unfolding findIndex_None image_iff by metis
    then show ?thesis
      using fireRepulsor_miss [OF False, of "first # others2"]
      by (simp add: explosions_append explosions_shot)
  qed
  have later: "object first \<notin> (\<lambda>e. oid (hitbox e)) ` set (enemiesRef w'')"
    if "hp ?enemy = 100" "fireRepulsor now2 intersects2 w' = Some w''" for now2 intersects2 w''
    using gone [OF that(1)] fireRepulsor_hitboxes [OF that(2)] by blast
  show ?thesis
    using w' wound kill gone again later by blast
qed

theorem repulsor_one_shot_kill_witness:
  "\<exists>w'. fireRepulsor 1000 [demoHit 3]
       (demoWorld 5 [demoEnemy 0 (Vector3 0 1 (- 10)), demoEnemy 2 (Vector3 3 2 (- 20))]) = Some w' \<and>
     enemiesRef w' = [demoEnemy 0 (Vector3 0 1 (- 10))] \<and>
     score (gameState w') = 10 \<and>
     explosions (events w') = [Vector3 3 2 (- 20)] \<and>
     (\<exists>w''. fireRepulsor 1300 [demoHit 3] w' = Some w'' \<and>
        enemiesRef w'' = [demoEnemy 0 (Vector3 0 1 (- 10))] \<and> score (gameState w'') = 10)"
proof -
  let ?w = "demoWorld 5 [demoEnemy 0 (Vector3 0 1 (- 10)), demoEnemy 2 (Vector3 3 2 (- 20))]"
  have a1: "\<not> 1000 - lastShotTimeRef ?w < 200" by (simp add: demo_defs)
  have a2: "findIndex (\<lambda>e. oid (hitbox e) = object (demoHit 3)) (enemiesRef ?w) = Some 1"
    by (simp add: demo_defs demoHit_def)
  have a3: "distinct (map (\<lambda>e. oid (hitbox e)) (enemiesRef ?w))" by (simp add: demo_defs)
  have hp: "hp (enemiesRef ?w ! 1) = 100" by (simp add: demo_defs)
  from repulsor_one_shot_kill [OF a1 a2 a3, of "[]"] hp
  obtain w' where w': "fireRepulsor 1000 [demoHit 3] ?w = Some w'"
    "enemiesRef w' = take 1 (enemiesRef ?w) @ drop (Suc 1) (enemiesRef ?w)"
    "gameState w' = (gameState ?w)\<lparr>score := score (gameState ?w) + 10\<rparr>"
    "explosions (events w') = explosions (events ?w) @ [position (mesh (enemiesRef ?w ! 1))]"
    "\<forall>now2 others2. \<exists>w''. fireRepulsor now2 (demoHit 3 # others2) w' = Some w'' \<and>
          enemiesRef w'' = enemiesRef w' \<and> gameState w'' = gameState w' \<and>
          explosions (events w'') = explosions (events w')"
    by blast
  from w'(5) obtain w'' where w'': "fireRepulsor 1300 [demoHit 3] w' = Some w''"
    "enemiesRef w'' = enemiesRef w'" "gameState w'' = gameState w'"
    by blast
  have e: "enemiesRef w' = [demoEnemy 0 (Vector3 0 1 (- 10))]"
    using w'(2) by (simp add: demo_defs)
  have s: "score (gameState w') = 10" using w'(3) by (simp add: demo_defs)
  have x: "explosions (events w') = [Vector3 3 2 (- 20)]" using w'(4) by (simp add: demo_defs)
  show ?thesis
    using w'(1) e s x w'' by simp
qed

text \<open>
  Claim C5. A call of the repulsor less than 200 ms after the time stamp of the last
  accepted shot returns the world as it was: no damage, no score, no beam, no sound, and
  nothing is stored for later. An accepted shot sets the time stamp to its own time, so of
  two calls less than 200 ms apart the second has no effect.
\<close>

theorem repulsor_cooldown_ignored:
  "(now - lastShotTimeRef w < 200 \<longrightarrow> fireRepulsor now intersects w = Some w) \<and>
   (\<not> t1 - lastShotTimeRef w < 200 \<and> t2 - t1 < 200 \<longrightarrow>
      (\<exists>w1. fireRepulsor t1 hits1 w = Some w1 \<and> lastShotTimeRef w1 = t1 \<and>
         fireRepulsor t2 hits2 w1 = Some w1))"
proof (intro conjI impI)
  assume "now - lastShotTimeRef w < 200"
  then show "fireRepulsor now intersects w = Some w"
    by (simp add: fireRepulsor_def REPULSOR_COOLDOWN_MS_def)
next
  assume a: "\<not> t1 - lastShotTimeRef w < 200 \<and> t2 - t1 < 200"
  obtain w1 where w1: "fireRepulsor t1 hits1 w = Some w1"
    using fireRepulsor_total by blast
  have last: "lastShotTimeRef w1 = t1"
  proof (cases "case hits1 of [] \<Rightarrow> None
          | first # _ \<Rightarrow> findIndex (\<lambda>e. oid (hitbox e) = object first) (enemiesRef w)")
    case None
    then show ?thesis
      using a w1 by (auto simp: fireRepulsor_miss REPULSOR_COOLDOWN_MS_def)
  next
    case (Some i)
    then obtain first others where hit: "hits1 = first # others"
      "findIndex (\<lambda>e. oid (hitbox e) = object first) (enemiesRef w) = Some i"
      by (cases hits1) auto
    have cool: "\<not> t1 - lastShotTimeRef w < REPULSOR_COOLDOWN_MS"
      using a by (simp add: REPULSOR_COOLDOWN_MS_def)
    show ?thesis
      using w1 fireRepulsor_hit [OF cool hit]
      by (cases "hp (enemiesRef w ! i) - 100 \<le> 0") (auto simp: Let_def)
  qed
  have "fireRepulsor t2 hits2 w1 = Some w1"
    using a last by (simp add: fireRepulsor_def REPULSOR_COOLDOWN_MS_def)
  then show "\<exists>w1. fireRepulsor t1 hits1 w = Some w1 \<and> lastShotTimeRef w1 = t1 \<and>
         fireRepulsor t2 hits2 w1 = Some w1"
    using w1 last by blast
qed

theorem repulsor_cooldown_ignored_witness:
  "fireRepulsor 150 [demoHit 1] (demoWorld 5 [demoEnemy 0 (Vector3 0 1 (- 10))]) =
     Some (demoWorld 5 [demoEnemy 0 (Vector3 0 1 (- 10))]) \<and>
   (\<exists>w1. fireRepulsor 1000 [] (demoWorld 5 [demoEnemy 0 (Vector3 0 1 (- 10))]) = Some w1 \<and>
      lastShotTimeRef w1 = 1000 \<and> fireRepulsor 1199 [demoHit 1] w1 = Some w1)"
  using repulsor_cooldown_ignored [of 150 "demoWorld 5 [demoEnemy 0 (Vector3 0 1 (- 10))]"
      "[demoHit 1]" 1000 1199 "[]" "[demoHit 1]"]
  by (simp add: demo_defs)

section \<open>Properties of the collision path\<close>

lemma collisionUpdater_char:
  "collisionUpdater w =
     (let prev = gameState w; newHp = health prev - 20 in
      if newHp \<le> 0
      then w\<lparr>events := events w @ gameOverEvents w,
             gameState := prev\<lparr>health := 0, status := Gameover\<rparr>\<rparr>
      else w\<lparr>events := events w @ (if newHp \<le> 20 \<and> audioCtxRef w then [PlaySound Low_hp] else []),
             gameState := prev\<lparr>health := newHp\<rparr>\<rparr>)"
  by (simp add: collisionUpdater_def Let_def submitScore_def playSound_def emit_def
      gameOverEvents_def storeReady_def)

lemma enemyStep_char:
  assumes "i < length (enemiesRef w)"
  shows "enemyStep delta i w =
    Some (let cam = cameraPosition w;
              moved = steerEnemy delta (wave (closureState w)) cam (enemiesRef w ! i) in
      if collides (position (mesh moved)) cam
      then collisionUpdater
             (w\<lparr>shakeIntensityRef := min (shakeIntensityRef w + 1) 2,
                events := events w @
                  [SpawnExplosion (add_v3 cam (Vector3 0 0 (- 1))),
                   SpawnExplosion (position (mesh moved))],
                enemiesRef := splice1 i (enemiesRef w)\<rparr>)
      else if vz (position (mesh moved)) > vz cam + 20
      then w\<lparr>enemiesRef := splice1 i (enemiesRef w)\<rparr>
      else w\<lparr>enemiesRef := (enemiesRef w)[i := moved]\<rparr>)"
  using assms
  by (simp add: enemyStep_def arrayAt_def Let_def destroyEnemy_def addShake_def
      spawnExplosion_def emit_def splice1_update)

lemma collides_iff:
  "collides ePos cam \<longleftrightarrow>
     \<bar>vx ePos - vx cam\<bar> < 2 \<and> \<bar>vz ePos - vz cam\<bar> < 2 \<and> vy ePos < 3.3 \<and> - 1.5 < vy ePos"
  by (simp add: collides_def Let_def)

lemma steerEnemy_at_target:
  "steerEnemy delta wv (Vector3 cx cy cz)
     (newEnemy fresh (Vector3 cx 1 cz) rndId rndWobble rndSpeed) =
   newEnemy fresh (Vector3 cx 1 cz) rndId rndWobble rndSpeed"
  by (simp add: steerEnemy_def newEnemy_def Let_def normalize_v3_def length_v3_def sub_v3_def
      lerp_v3_def multiplyScalar_def add_v3_def)

text \<open>
  Claim C7. The collision test holds exactly when the enemy is strictly inside the box on all
  three axes (less than 0.5 + 1.5 from the camera in x and in z, and strictly between -1.5
  and 1.8 + 1.5 in y); a position on a boundary of any axis does not collide. In the enemy
  loop a colliding enemy is spliced out with no points and the health drops by 20 (not below
  0); an enemy that does not collide leaves the game state and the event log as they are.
\<close>

theorem collision_boundary_exclusive:
  "(collides ePos cam \<longleftrightarrow>
      \<bar>vx ePos - vx cam\<bar> < 0.5 + 1.5 \<and> \<bar>vz ePos - vz cam\<bar> < 0.5 + 1.5 \<and>
      vy ePos < 1.8 + 1.5 \<and> - 1.5 < vy ePos) \<and>
   (\<bar>vx ePos - vx cam\<bar> = 0.5 + 1.5 \<or> \<bar>vz ePos - vz cam\<bar> = 0.5 + 1.5 \<or>
    vy ePos = 1.8 + 1.5 \<or> vy ePos = - 1.5 \<longrightarrow> \<not> collides ePos cam) \<and>
   (i < length (enemiesRef w) \<longrightarrow>
      (\<exists>w'. enemyStep delta i w = Some w' \<and>
         (let moved = steerEnemy delta (wave (closureState w)) (cameraPosition w) (enemiesRef w ! i)
          in if collides (position (mesh moved)) (cameraPosition w)
             then enemiesRef w' = take i (enemiesRef w) @ drop (Suc i) (enemiesRef w) \<and>
                  score (gameState w') = score (gameState w) \<and>
                  health (gameState w') = max 0 (health (gameState w) - 20)
             else gameState w' = gameState w \<and> events w' = events w)))"
proof (intro conjI impI)
  show "collides ePos cam \<longleftrightarrow>
      \<bar>vx ePos - vx cam\<bar> < 0.5 + 1.5 \<and> \<bar>vz ePos - vz cam\<bar> < 0.5 + 1.5 \<and>
      vy ePos < 1.8 + 1.5 \<and> - 1.5 < vy ePos"
    by (simp add: collides_iff)
next
  assume "\<bar>vx ePos - vx cam\<bar> = 0.5 + 1.5 \<or> \<bar>vz ePos - vz cam\<bar> = 0.5 + 1.5 \<or>
    vy ePos = 1.8 + 1.5 \<or> vy ePos = - 1.5"
  then show "\<not> collides ePos cam"
    by (auto simp: collides_iff)
next
  assume i: "i < length (enemiesRef w)"
  show "\<exists>w'. enemyStep delta i w = Some w' \<and>
         (let moved = steerEnemy delta (wave (closureState w)) (cameraPosition w) (enemiesRef w ! i)
          in if collides (position (mesh moved)) (cameraPosition w)
             then enemiesRef w' = take i (enemiesRef w) @ drop (Suc i) (enemiesRef w) \<and>
                  score (gameState w') = score (gameState w) \<and>
                  health (gameState w') = max 0 (health (gameState w) - 20)
             else gameState w' = gameState w \<and> events w' = events w)"
    by (simp add: enemyStep_char [OF i] Let_def collisionUpdater_char splice1_def)
qed

theorem collision_boundary_exclusive_witness:
  "\<not> collides (Vector3 2 1 0) (Vector3 0 1.5 0) \<and>
   \<not> collides (Vector3 0 3.3 0) (Vector3 0 1.5 0) \<and>
   collides (Vector3 1.9 1 0) (Vector3 0 1.5 0) \<and>
   (\<exists>w'. enemyStep 0.016 0 (demoWorld 5 [demoEnemy 0 (Vector3 0 1 0)]) = Some w' \<and>
      enemiesRef w' = [] \<and> score (gameState w') = 0 \<and> health (gameState w') = 80)"
proof -
  let ?w = "demoWorld 5 [demoEnemy 0 (Vector3 0 1 0)]"
  let ?cam = "Vector3 0 1.5 0"
  have b1: "\<not> collides (Vector3 2 1 0) ?cam"
    using collision_boundary_exclusive [of "Vector3 2 1 0" ?cam 0 ?w "0.016"] by simp
  have b2: "\<not> collides (Vector3 0 3.3 0) ?cam"
    using collision_boundary_exclusive [of "Vector3 0 3.3 0" ?cam 0 ?w "0.016"] by simp
  have b3: "collides (Vector3 1.9 1 0) ?cam"
    using collision_boundary_exclusive [of "Vector3 1.9 1 0" ?cam 0 ?w "0.016"] by simp
  have i: "0 < length (enemiesRef ?w)" by (simp add: demo_defs)
  have moved: "steerEnemy 0.016 (wave (closureState ?w)) (cameraPosition ?w) (enemiesRef ?w ! 0) =
      demoEnemy 0 (Vector3 0 1 0)"
    by (simp add: demoWorld_def demoEnemy_def initialWorld_def PLAYER_HEIGHT_def
        steerEnemy_at_target)
  have hit: "collides (position (mesh (demoEnemy 0 (Vector3 0 1 0)))) (cameraPosition ?w)"
    by (simp add: demo_defs collides_iff)
  from collision_boundary_exclusive [of "Vector3 2 1 0" ?cam 0 ?w "0.016"] i
  obtain w' where w': "enemyStep 0.016 0 ?w = Some w'"
    and eff: "let moved = steerEnemy 0.016 (wave (closureState ?w)) (cameraPosition ?w) (enemiesRef ?w ! 0)
          in if collides (position (mesh moved)) (cameraPosition ?w)
             then enemiesRef w' = take 0 (enemiesRef ?w) @ drop (Suc 0) (enemiesRef ?w) \<and>
                  score (gameState w') = score (gameState ?w) \<and>
                  health (gameState w') = max 0 (health (gameState ?w) - 20)
             else gameState w' = gameState ?w \<and> events w' = events ?w"
    by blast
  from eff have "enemiesRef w' = take 0 (enemiesRef ?w) @ drop (Suc 0) (enemiesRef ?w) \<and>
                  score (gameState w') = score (gameState ?w) \<and>
                  health (gameState w') = max 0 (health (gameState ?w) - 20)"
    unfolding Let_def moved using hit by simp
  then have "enemiesRef w' = [] \<and> score (gameState w') = 0 \<and> health (gameState w') = 80"
    by (simp add: demo_defs)
  with w' b1 b2 b3 show ?thesis by blast
qed



section \<open>Invariants of the game state\<close>

lemma sameLife_refl: "sameLife w w"
  by (simp add: sameLife_def)

lemma sameLife_trans: "sameLife w v \<Longrightarrow> sameLife v u \<Longrightarrow> sameLife w u"
  by (auto simp: sameLife_def)

lemma triggerUnibeam_total: "\<exists>w'. triggerUnibeam dateNow w = Some w'"
  by (cases "0 < beamCharges (gameState w)")
    (simp_all add: triggerUnibeam_charged triggerUnibeam_no_charge)

lemma triggerUnibeam_sameLife:
  assumes "triggerUnibeam dateNow w = Some w'"
  shows "sameLife w w'"
proof (cases "0 < beamCharges (gameState w)")
  case True
  then show ?thesis
    using assms by (auto simp: triggerUnibeam_charged sameLife_def stateBounds_def)
next
  case False
  then show ?thesis
    using assms by (simp add: triggerUnibeam_no_charge sameLife_refl)
qed

lemma fireRepulsor_sameLife:
  assumes "fireRepulsor now intersects w = Some w'"
  shows "sameLife w w'"
proof (cases "now - lastShotTimeRef w < REPULSOR_COOLDOWN_MS")
  case True
  then show ?thesis using assms by (simp add: fireRepulsor_cooldown sameLife_refl)
next
  case False
  show ?thesis
  proof (cases "case intersects of [] \<Rightarrow> None
          | first # _ \<Rightarrow> findIndex (\<lambda>e. oid (hitbox e) = object first) (enemiesRef w)")
    case None
    then show ?thesis
      using False assms by (auto simp: fireRepulsor_miss sameLife_def)
  next
    case (Some i)
    then obtain first others where hit: "intersects = first # others"
      "findIndex (\<lambda>e. oid (hitbox e) = object first) (enemiesRef w) = Some i"
      by (cases intersects) auto
    show ?thesis
      using assms fireRepulsor_hit [OF False hit]
      by (cases "hp (enemiesRef w ! i) - 100 \<le> 0")
        (auto simp: Let_def sameLife_def stateBounds_def)
  qed
qed

lemma flightAndRegen_sameLife: "sameLife w (flightAndRegen delta w)"
  by (simp add: flightAndRegen_def Let_def sameLife_def stateBounds_def MAX_BEAM_CHARGES_def)

lemma cameraShake_sameLife: "sameLife w (cameraShake delta f w)"
  by (simp add: cameraShake_def Let_def sameLife_def)

lemma waveTimer_sameLife: "sameLife w (waveTimer now w)"
  by (simp add: waveTimer_def Let_def sameLife_def stateBounds_def)

lemma spawnEnemy_sameLife: "sameLife w (spawnEnemy f w)"
  by (simp add: spawnEnemy_def Let_def sameLife_def)

lemma pollGesture_sameLife: "\<exists>w'. pollGesture f w = Some w' \<and> sameLife w w'"
proof -
  have upd: "sameLife w (v\<lparr>targetCursorPositionRef := t\<rparr>)" if "sameLife w v" for v t
    using that by (simp add: sameLife_def)
  have fire: "\<exists>w'. fireRepulsor n h v = Some w' \<and> sameLife w w'" if "sameLife w v" for n h v
    using fireRepulsor_total [of n h v] fireRepulsor_sameLife that sameLife_trans by blast
  have beam: "\<exists>w'. triggerUnibeam n v = Some w' \<and> sameLife w w'" if "sameLife w v" for n v
    using triggerUnibeam_total [of n v] triggerUnibeam_sameLife that sameLife_trans by blast
  have t: "sameLife w (w\<lparr>lastGestureTimeRef := n\<rparr>)" for n
    by (simp add: sameLife_def)
  show ?thesis
    by (auto simp: pollGesture_def Let_def sameLife_refl t intro!: fire beam upd
        split: option.splits)
qed

lemma enemyStep_sameLife:
  assumes "i < length (enemiesRef w)"
  shows "\<exists>w'. enemyStep delta i w = Some w' \<and> sameLife w w' \<and> i \<le> length (enemiesRef w')"
  using assms
  by (auto simp: enemyStep_char Let_def collisionUpdater_char sameLife_def stateBounds_def
      splice1_def)

lemma enemyLoop_sameLife:
  "n \<le> length (enemiesRef w) \<Longrightarrow> \<exists>w'. enemyLoop delta n w = Some w' \<and> sameLife w w'"
proof (induction n arbitrary: w)
  case 0
  then show ?case by (simp add: sameLife_refl)
next
  case (Suc n)
  then obtain v where v: "enemyStep delta n w = Some v" "sameLife w v" "n \<le> length (enemiesRef v)"
    using enemyStep_sameLife [of n w delta] by auto
  from Suc.IH [OF v(3)] obtain w' where "enemyLoop delta n v = Some w'" "sameLife v w'"
    by blast
  with v show ?case
    by (auto intro: sameLife_trans)
qed

lemma animate_sameLife:
  "\<exists>w'. animate f w = Some w' \<and>
     sameLife (w\<lparr>cursorPositionRef := smoothed w\<rparr>) w'"
proof -
  let ?delta = "min ((perf_now f - lastTime w) / 1000) 0.1"
  let ?w0 = "w\<lparr>cursorPositionRef := smoothed w\<rparr>"
  let ?w1 = "w\<lparr>lastTime := perf_now f,
               cursorPositionRef :=
                 (lerp (fst (cursorPositionRef w)) (fst (targetCursorPositionRef w)) 0.15,
                  lerp (snd (cursorPositionRef w)) (snd (targetCursorPositionRef w)) 0.15)\<rparr>"
  let ?w2 = "if status (closureState ?w1) = Playing then flightAndRegen ?delta ?w1 else ?w1"
  let ?w3 = "cameraShake ?delta f ?w2"
  have s1: "sameLife ?w0 ?w1" by (simp add: sameLife_def smoothed_def)
  have g: "sameLife v (if c then flightAndRegen d v else v)" for v c d
    by (simp add: flightAndRegen_sameLife sameLife_refl)
  have s2: "sameLife ?w1 ?w2" by (rule g)
  have s3: "sameLife ?w2 ?w3" by (rule cameraShake_sameLife)
  obtain w4 where w4: "pollGesture f ?w3 = Some w4" "sameLife ?w3 w4"
    using pollGesture_sameLife by blast
  have s4: "sameLife ?w0 w4"
    using s1 s2 s3 w4(2) by (blast intro: sameLife_trans)
  let ?w5 = "spawnEnemy f (waveTimer (date_now f) w4)"
  have s5: "sameLife ?w0 ?w5"
    using s4 waveTimer_sameLife spawnEnemy_sameLife by (blast intro: sameLife_trans)
  obtain w6 where w6: "enemyLoop ?delta (length (enemiesRef ?w5)) ?w5 = Some w6" "sameLife ?w5 w6"
    using enemyLoop_sameLife [of "length (enemiesRef ?w5)" ?w5 ?delta] by auto
  have s6: "sameLife ?w0 w6"
    using s5 w6(2) by (rule sameLife_trans)
  have "animate f w = (if status (closureState w4) \<noteq> Playing then Some w4 else Some w6)"
    by (simp only: animate_def Let_def w4(1) option.case w6(1))
  then show ?thesis
    using s4 s6 by auto
qed

lemma step_total: "\<exists>w'. step i w = Some w'"
  using animate_sameLife fireRepulsor_total triggerUnibeam_total
  by (cases i) (simp_all, blast)




subsection \<open>Evaluation of concrete frames\<close>

lemma normalize_v3_zero: "normalize_v3 (Vector3 0 0 0) = Vector3 0 0 0"
  by (simp add: normalize_v3_def length_v3_def multiplyScalar_def)

lemma normalize_v3_forward: "0 < z \<Longrightarrow> normalize_v3 (Vector3 0 0 z) = Vector3 0 0 1"
  by (simp add: normalize_v3_def length_v3_def multiplyScalar_def)

lemmas eval_defs = demoInitial_def demoFrame_def initialWorld_def initialGameState_def
  startGame_def render_def animate_def Let_def flightAndRegen_def cameraShake_def
  pollGesture_def waveTimer_def spawnEnemy_def enemyStep_char steerEnemy_def newEnemy_def
  PLAYER_HEIGHT_def FLIGHT_SPEED_def MAX_BEAM_CHARGES_def BEAM_REGEN_MS_def
  WAVE_DURATION_SEC_def lerp_def sub_v3_def add_v3_def lerp_v3_def multiplyScalar_def
  normalize_v3_zero normalize_v3_forward distanceTo_less_iff collides_iff

lemma tick_eval:
  "animate (demoFrame 16 16 0.01) (render 0 (startGame 0 demoInitial)) =
   Some ((render 0 (startGame 0 demoInitial))
     \<lparr>lastTime := 16, cameraPosition := Vector3 0 1.5 (- 0.24),
      enemiesRef := [(newEnemy 0 (Vector3 0 1 (- 60.1552)) 0.25 0 0)\<lparr>velocity := Vector3 0 0 5.3\<rparr>],
      nextOid := 2\<rparr>)"
  by (simp add: eval_defs)

lemma demoTicked_run:
  "run [StartGame 0, Render 0, Tick (demoFrame 16 16 0.01)] demoInitial = Some demoTicked"
  by (simp only: run.simps step.simps tick_eval option.case demoTicked_def)



subsection \<open>Bounds and score\<close>




section \<open>Aim smoothing\<close>

lemma lerp_alt: "lerp x y t = x + t * (y - x)"
  by (simp add: lerp_def algebra_simps)

text \<open>
  Claim C8. Every call of \<open>animate\<close> returns, and moves the smoothed cursor by 0.15 of its
  distance to the raw target, on each axis by itself; the frame (its clocks, so the time
  step, and everything else it reads) has no influence on the new cursor.
\<close>

theorem aim_smoothing_fixed_ratio:
  "\<exists>w'. animate f w = Some w' \<and>
     cursorPositionRef w' =
       (fst (cursorPositionRef w) +
          0.15 * (fst (targetCursorPositionRef w) - fst (cursorPositionRef w)),
        snd (cursorPositionRef w) +
          0.15 * (snd (targetCursorPositionRef w) - snd (cursorPositionRef w))) \<and>
     (\<forall>f'. \<exists>w''. animate f' w = Some w'' \<and> cursorPositionRef w'' = cursorPositionRef w')"
proof -
  have step: "\<exists>w'. animate g w = Some w' \<and> cursorPositionRef w' = smoothed w" for g
    using animate_sameLife [of g w] by (auto simp: sameLife_def)
  obtain w' where w': "animate f w = Some w'" "cursorPositionRef w' = smoothed w"
    using step by blast
  have "smoothed w = (fst (cursorPositionRef w) +
          0.15 * (fst (targetCursorPositionRef w) - fst (cursorPositionRef w)),
        snd (cursorPositionRef w) +
          0.15 * (snd (targetCursorPositionRef w) - snd (cursorPositionRef w)))"
    by (simp only: smoothed_def lerp_alt)
  with w' step show ?thesis by simp
qed

theorem aim_smoothing_fixed_ratio_witness:
  "\<exists>w'. animate (demoFrame 16 16 0.5) (demoInitial\<lparr>targetCursorPositionRef := (1, 0)\<rparr>) = Some w' \<and>
     cursorPositionRef w' = (0.575, 0.425)"
proof -
  let ?w = "demoInitial\<lparr>targetCursorPositionRef := (1, 0)\<rparr>"
  obtain w' where w': "animate (demoFrame 16 16 0.5) ?w = Some w'"
    "cursorPositionRef w' =
       (fst (cursorPositionRef ?w) +
          0.15 * (fst (targetCursorPositionRef ?w) - fst (cursorPositionRef ?w)),
        snd (cursorPositionRef ?w) +
          0.15 * (snd (targetCursorPositionRef ?w) - snd (cursorPositionRef ?w)))"
    using aim_smoothing_fixed_ratio [of "demoFrame 16 16 0.5" ?w] by blast
  have "cursorPositionRef w' = (0.575, 0.425)"
    using w'(2) by (simp add: demoInitial_def initialWorld_def)
  with w'(1) show ?thesis by blast
qed

section \<open>Score submission\<close>

lemma doomed_pre:
  "animate (demoFrame 16 16 0.5) doomedWorld =
     enemyLoop 0.016 2 (doomedWorld\<lparr>lastTime := 16, cameraPosition := Vector3 0 1.5 (- 0.24)\<rparr>)"
  by (simp add: doomedWorld_def demoInitial_def demoFrame_def initialWorld_def initialGameState_def
  startGame_def render_def animate_def Let_def flightAndRegen_def cameraShake_def
  pollGesture_def waveTimer_def spawnEnemy_def 
  PLAYER_HEIGHT_def FLIGHT_SPEED_def MAX_BEAM_CHARGES_def BEAM_REGEN_MS_def
  WAVE_DURATION_SEC_def lerp_def numeral_2_eq_2 del: enemyLoop.simps)

text \<open>
  Claim C6 does not hold of the code. In one frame in which two enemies reach the player
  while the health is 20, the collision updater runs twice: the first run ends the game and
  submits the score, and the second, finding a new health of -20, submits it again.
\<close>

theorem duplicate_submission:
  "map_option (\<lambda>w. (status (gameState w), health (gameState w), events w))
     (animate (demoFrame 16 16 0.5) doomedWorld) =
   Some (Gameover, 0,
     [SpawnExplosion (Vector3 0 1.5 (- 1.24)), SpawnExplosion (Vector3 0 1 (- 1.6552)),
      ExitPointerLock, AddDoc ''STARK-7'' 130 ''pilot'',
      SpawnExplosion (Vector3 0 1.5 (- 1.24)), SpawnExplosion (Vector3 0 1 (- 1.1552)),
      ExitPointerLock, AddDoc ''STARK-7'' 130 ''pilot''])"
  by (simp only: doomed_pre)
    (simp add: numeral_2_eq_2 doomedWorld_def eval_defs collisionUpdater_char gameOverEvents_def
      storeReady_def splice1_def)

section \<open>Well-formed worlds\<close>

lemma keeps_refl: "keeps w w"
  by (simp add: keeps_def)

lemma keeps_trans: "keeps w v \<Longrightarrow> keeps v u \<Longrightarrow> keeps w u"
  by (auto simp: keeps_def)

lemma distinct_map_splice1:
  assumes "distinct (map f xs)"
  shows "distinct (map f (splice1 i xs))"
proof -
  have "map f (splice1 i xs) = take i (map f xs) @ drop (Suc i) (map f xs)"
    by (simp add: splice1_def take_map drop_map)
  moreover have "distinct (take i (map f xs) @ drop (Suc i) (map f xs))"
    using assms set_take_disj_set_drop_if_distinct [of "map f xs" i "Suc i"]
    by (simp add: distinct_take distinct_drop)
  ultimately show ?thesis by simp
qed

lemma set_splice1: "set (splice1 i xs) \<subseteq> set xs"
  by (auto simp: splice1_def dest: in_set_takeD in_set_dropD)

lemma idsOk_splice1:
  "idsOk w \<Longrightarrow> idsOk (w\<lparr>enemiesRef := splice1 i (enemiesRef w)\<rparr>)"
  using set_splice1 [of i "enemiesRef w"]
  by (auto simp: idsOk_def distinct_map_splice1)

lemma idsOk_filter:
  "idsOk w \<Longrightarrow> idsOk (w\<lparr>enemiesRef := filter P (enemiesRef w)\<rparr>)"
  by (auto simp: idsOk_def distinct_map_filter)

lemma idsOk_update:
  assumes "idsOk w" and "i < length (enemiesRef w)"
    and "oid (hitbox e) = oid (hitbox (enemiesRef w ! i))"
  shows "idsOk (w\<lparr>enemiesRef := (enemiesRef w)[i := e]\<rparr>)"
proof -
  let ?f = "\<lambda>e. oid (hitbox e)"
  have m: "map ?f ((enemiesRef w)[i := e]) = map ?f (enemiesRef w)"
    using assms(2,3) by (simp add: map_update list_update_same_conv)
  have "set ((enemiesRef w)[i := e]) \<subseteq> insert e (set (enemiesRef w))"
    by (rule set_update_subset_insert)
  moreover have "?f e < nextOid w"
    using assms by (auto simp: idsOk_def)
  ultimately have "\<forall>x \<in> set ((enemiesRef w)[i := e]). ?f x < nextOid w"
    using assms(1) by (auto simp: idsOk_def)
  then show ?thesis
    using assms(1) m by (simp add: idsOk_def)
qed

lemma idsOk_cong:
  "enemiesRef v = enemiesRef w \<Longrightarrow> nextOid v = nextOid w \<Longrightarrow> idsOk v = idsOk w"
  by (simp add: idsOk_def)

lemma triggerUnibeam_keeps:
  assumes "triggerUnibeam dateNow w = Some w'"
  shows "keeps w w'"
proof (cases "0 < beamCharges (gameState w)")
  case True
  have "idsOk w'" if ok: "idsOk w"
  proof -
    have "idsOk (w\<lparr>enemiesRef := filter (\<lambda>e. \<not> inRadius (cameraPosition w) e) (enemiesRef w)\<rparr>)"
      using ok by (rule idsOk_filter)
    moreover have "idsOk w' =
        idsOk (w\<lparr>enemiesRef := filter (\<lambda>e. \<not> inRadius (cameraPosition w) e) (enemiesRef w)\<rparr>)"
      using assms by (intro idsOk_cong) (auto simp: triggerUnibeam_charged [OF True])
    ultimately show ?thesis by simp
  qed
  then show ?thesis
    using assms by (auto simp: triggerUnibeam_charged [OF True] keeps_def)
next
  case False
  then show ?thesis
    using assms by (simp add: triggerUnibeam_no_charge keeps_refl)
qed

lemma fireRepulsor_keeps:
  assumes "fireRepulsor now intersects w = Some w'"
  shows "keeps w w'"
proof (cases "now - lastShotTimeRef w < REPULSOR_COOLDOWN_MS")
  case True
  then show ?thesis using assms by (simp add: fireRepulsor_cooldown keeps_refl)
next
  case False
  show ?thesis
  proof (cases "case intersects of [] \<Rightarrow> None
          | first # _ \<Rightarrow> findIndex (\<lambda>e. oid (hitbox e) = object first) (enemiesRef w)")
    case None
    then show ?thesis
      using False assms by (auto simp: fireRepulsor_miss keeps_def idsOk_def)
  next
    case (Some i)
    then obtain first others where hit: "intersects = first # others"
      "findIndex (\<lambda>e. oid (hitbox e) = object first) (enemiesRef w) = Some i"
      by (cases intersects) auto
    have i: "i < length (enemiesRef w)" using findIndex_Some [OF hit(2)] by simp
    let ?e = "(enemiesRef w ! i)\<lparr>hp := hp (enemiesRef w ! i) - 100\<rparr>"
    have ids: "idsOk w'" if ok: "idsOk w"
    proof (cases "hp (enemiesRef w ! i) - 100 \<le> 0")
      case True
      have "idsOk w' = idsOk (w\<lparr>enemiesRef := splice1 i (enemiesRef w)\<rparr>)"
        using assms True fireRepulsor_hit [OF False hit]
        by (intro idsOk_cong) (auto simp: Let_def)
      then show ?thesis using idsOk_splice1 [OF ok] by simp
    next
      case no: False
      have "idsOk w' = idsOk (w\<lparr>enemiesRef := (enemiesRef w)[i := ?e]\<rparr>)"
        using assms no fireRepulsor_hit [OF False hit]
        by (intro idsOk_cong) (auto simp: Let_def)
      then show ?thesis using idsOk_update [OF ok i, of ?e] by simp
    qed
    show ?thesis
      using assms fireRepulsor_hit [OF False hit] ids
      by (cases "hp (enemiesRef w ! i) - 100 \<le> 0") (auto simp: Let_def keeps_def)
  qed
qed

lemma flightAndRegen_keeps: "keeps w (flightAndRegen delta w)"
  by (simp add: flightAndRegen_def Let_def keeps_def idsOk_def)

lemma cameraShake_keeps: "keeps w (cameraShake delta f w)"
  by (simp add: cameraShake_def Let_def keeps_def idsOk_def)

lemma waveTimer_keeps: "keeps w (waveTimer now w)"
  by (simp add: waveTimer_def Let_def keeps_def idsOk_def)

lemma spawnEnemy_keeps: "keeps w (spawnEnemy f w)"
  by (auto simp: spawnEnemy_def Let_def keeps_def idsOk_def newEnemy_def)

lemma pollGesture_keeps: "pollGesture f w = Some w' \<Longrightarrow> keeps w w'"
proof -
  have t: "keeps w (w\<lparr>lastGestureTimeRef := n\<rparr>)" for n
    by (simp add: keeps_def idsOk_def)
  have u: "keeps w (w\<lparr>lastGestureTimeRef := n, targetCursorPositionRef := c\<rparr>)" for n c
    by (simp add: keeps_def idsOk_def)
  have fire: "keeps w w'" if "fireRepulsor n h v = Some w'" "keeps w v" for n h v
    using that fireRepulsor_keeps keeps_trans by blast
  have beam: "keeps w w'" if "triggerUnibeam n v = Some w'" "keeps w v" for n v
    using that triggerUnibeam_keeps keeps_trans by blast
  assume "pollGesture f w = Some w'"
  then show ?thesis
    by (auto simp: pollGesture_def Let_def keeps_refl t u split: option.splits if_splits
        intro: fire [OF _ u] beam [OF _ u])
qed

lemma steerEnemy_hitbox: "oid (hitbox (steerEnemy delta wv cam e)) = oid (hitbox e)"
  by (simp add: steerEnemy_def Let_def)

lemma enemyStep_keeps:
  assumes "i < length (enemiesRef w)" and "enemyStep delta i w = Some w'"
    and "status (closureState w) = Playing"
  shows "keeps w w'"
proof -
  let ?moved = "steerEnemy delta (wave (closureState w)) (cameraPosition w) (enemiesRef w ! i)"
  have ids: "idsOk w'" if ok: "idsOk w"
  proof (cases "collides (position (mesh ?moved)) (cameraPosition w) \<or>
      vz (position (mesh ?moved)) > vz (cameraPosition w) + 20")
    case True
    have "idsOk w' = idsOk (w\<lparr>enemiesRef := splice1 i (enemiesRef w)\<rparr>)"
      using assms True
      by (intro idsOk_cong) (auto simp: enemyStep_char Let_def collisionUpdater_char)
    then show ?thesis using idsOk_splice1 [OF ok] by simp
  next
    case False
    have "idsOk w' = idsOk (w\<lparr>enemiesRef := (enemiesRef w)[i := ?moved]\<rparr>)"
      using assms False by (intro idsOk_cong) (auto simp: enemyStep_char Let_def)
    then show ?thesis
      using idsOk_update [OF ok assms(1), of ?moved] by (simp add: steerEnemy_hitbox)
  qed
  show ?thesis
    using assms ids
    by (auto simp: enemyStep_char Let_def collisionUpdater_char keeps_def split: if_splits)
qed

lemma enemyLoop_keeps:
  "n \<le> length (enemiesRef w) \<Longrightarrow> enemyLoop delta n w = Some w' \<Longrightarrow>
   status (closureState w) = Playing \<Longrightarrow> keeps w w'"
proof (induction n arbitrary: w)
  case 0
  then show ?case by (simp add: keeps_refl)
next
  case (Suc n)
  then obtain v where v: "enemyStep delta n w = Some v" "n \<le> length (enemiesRef v)"
    using enemyStep_sameLife [of n w delta] by auto
  have k: "keeps w v" using enemyStep_keeps [OF _ v(1)] Suc.prems(1,3) by simp
  then have "status (closureState v) = Playing"
    using Suc.prems(3) by (simp add: keeps_def)
  then have "keeps v w'" using Suc.IH [OF v(2)] Suc.prems(2) v(1) by simp
  with k show ?case by (rule keeps_trans)
qed

lemma animate_keeps:
  assumes "animate f w = Some w'"
  shows "keeps w w'"
proof -
  let ?delta = "min ((perf_now f - lastTime w) / 1000) 0.1"
  let ?w1 = "w\<lparr>lastTime := perf_now f,
               cursorPositionRef :=
                 (lerp (fst (cursorPositionRef w)) (fst (targetCursorPositionRef w)) 0.15,
                  lerp (snd (cursorPositionRef w)) (snd (targetCursorPositionRef w)) 0.15)\<rparr>"
  let ?w2 = "if status (closureState ?w1) = Playing then flightAndRegen ?delta ?w1 else ?w1"
  let ?w3 = "cameraShake ?delta f ?w2"
  have k1: "keeps w ?w1" by (simp add: keeps_def idsOk_def)
  have g: "keeps v (if c then flightAndRegen d v else v)" for v c d
    by (simp add: flightAndRegen_keeps keeps_refl)
  have k2: "keeps ?w1 ?w2" by (rule g)
  have k3: "keeps ?w2 ?w3" by (rule cameraShake_keeps)
  obtain w4 where w4: "pollGesture f ?w3 = Some w4"
    using pollGesture_sameLife by blast
  have k4: "keeps w w4"
    using k1 k2 k3 pollGesture_keeps [OF w4] by (blast intro: keeps_trans)
  let ?w5 = "spawnEnemy f (waveTimer (date_now f) w4)"
  have k5: "keeps w ?w5"
    using k4 waveTimer_keeps spawnEnemy_keeps by (blast intro: keeps_trans)
  have eq: "animate f w =
      (if status (closureState w4) \<noteq> Playing then Some w4
       else enemyLoop ?delta (length (enemiesRef ?w5)) ?w5)"
    by (simp only: animate_def Let_def w4 option.case)
  show ?thesis
  proof (cases "status (closureState w4) \<noteq> Playing")
    case True
    then show ?thesis using assms eq k4 by simp
  next
    case False
    then have "enemyLoop ?delta (length (enemiesRef ?w5)) ?w5 = Some w'"
      using assms eq by simp
    moreover have "status (closureState ?w5) = Playing"
      using False k4 k5 by (simp add: keeps_def)
    ultimately have "keeps ?w5 w'" by (rule enemyLoop_keeps [OF order_refl])
    with k5 show ?thesis by (rule keeps_trans)
  qed
qed

lemma step_wellFormed:
  assumes "step i w = Some w'" and "wellFormed w"
  shows "wellFormed w'"
proof (cases i)
  case (Tick f)
  then show ?thesis
    using assms animate_keeps [of f w w'] by (auto simp: wellFormed_def keeps_def)
next
  case (MouseDown now intersects)
  then show ?thesis
    using assms fireRepulsor_keeps [of now intersects w w'] by (auto simp: wellFormed_def keeps_def)
next
  case (KeyDownSpace now)
  then show ?thesis
    using assms triggerUnibeam_keeps [of now w w'] by (auto simp: wellFormed_def keeps_def)
next
  case (MouseMove x y)
  then show ?thesis using assms by (auto simp: wellFormed_def idsOk_def)
next
  case (StartGame now)
  then show ?thesis using assms by (auto simp: wellFormed_def idsOk_def startGame_def)
next
  case (Render perfNow)
  then show ?thesis using assms by (auto simp: wellFormed_def idsOk_def render_def)
qed

lemma reachable_wellFormed: "reachable w \<Longrightarrow> wellFormed w"
proof (induction rule: reachable.induct)
  case (initial perfNow db uid app nick)
  show ?case
    by (simp add: initialWorld_def initialGameState_def wellFormed_def idsOk_def)
next
  case (after w i w')
  then show ?case using step_wellFormed by blast
qed

text \<open>
  So the hypotheses of the repulsor and collision theorems hold wherever the game can be:
  live hit boxes are distinct, and a loop in play has an audio context.
\<close>

lemma reachable_distinct_hitboxes:
  "reachable w \<Longrightarrow> distinct (map (\<lambda>e. oid (hitbox e)) (enemiesRef w))"
  using reachable_wellFormed by (simp add: wellFormed_def idsOk_def)

lemma reachable_playing_audio:
  "reachable w \<Longrightarrow> status (closureState w) = Playing \<Longrightarrow> audioCtxRef w"
  using reachable_wellFormed by (auto simp: wellFormed_def)

section \<open>Further properties\<close>

text \<open>
  No handler fails: whatever the world and the input, every index the handlers read is in
  range, so each returns a world.
\<close>

theorem handlers_return: "\<exists>w'. step i w = Some w'"
  by (rule step_total)

text \<open>
  In every reachable world the hit boxes of the live enemies are pairwise different objects.
\<close>

theorem live_hitboxes_distinct:
  "reachable w \<Longrightarrow> distinct (map (\<lambda>e. oid (hitbox e)) (enemiesRef w))"
  by (rule reachable_distinct_hitboxes)

theorem live_hitboxes_distinct_witness:
  "distinct (map (\<lambda>e. oid (hitbox e)) (enemiesRef demoTicked))"
proof -
  have "reachable demoInitial"
    unfolding demoInitial_def by (rule reachable.initial)
  moreover have "reachable w'" if "reachable w" "run is w = Some w'" for "is" w w'
    using that
    by (induction "is" arbitrary: w) (auto split: option.splits intro: reachable.after)
  ultimately have "reachable demoTicked"
    using demoTicked_run by blast
  then show ?thesis by (rule live_hitboxes_distinct)
qed

text \<open>
  The regeneration of charges tests the charges that the effect closure captured, not those
  of the current state: while the closure holds the maximum, a frame regenerates nothing and
  resets the timer, whatever the charges are now; below the maximum, a full interval adds
  one charge, capped at the maximum.
\<close>

theorem regeneration_reads_closure:
  "(beamCharges (closureState w) \<ge> MAX_BEAM_CHARGES \<longrightarrow>
      beamCharges (gameState (flightAndRegen delta w)) = beamCharges (gameState w) \<and>
      beamRegenTimerRef (flightAndRegen delta w) = 0) \<and>
   (beamCharges (closureState w) < MAX_BEAM_CHARGES \<and>
    BEAM_REGEN_MS \<le> beamRegenTimerRef w + delta * 1000 \<longrightarrow>
      beamCharges (gameState (flightAndRegen delta w)) =
        min (beamCharges (gameState w) + 1) MAX_BEAM_CHARGES \<and>
      beamRegenTimerRef (flightAndRegen delta w) = 0)"
  by (simp add: flightAndRegen_def Let_def)

theorem regeneration_reads_closure_witness:
  "beamCharges (gameState (flightAndRegen 0.1 demoShot)) = 4 \<and>
   beamCharges (gameState (flightAndRegen 0.1
     (demoShot\<lparr>closureState := gameState demoShot, beamRegenTimerRef := 950\<rparr>))) = 5"
  using regeneration_reads_closure [of demoShot "0.1"]
    regeneration_reads_closure
      [of "demoShot\<lparr>closureState := gameState demoShot, beamRegenTimerRef := 950\<rparr>" "0.1"]
  by (simp add: demoShot_def demoInitial_def initialWorld_def initialGameState_def
      startGame_def render_def MAX_BEAM_CHARGES_def BEAM_REGEN_MS_def)

end
